theory Spec2Isabelle
  imports Complex_Main "HOL-Library.Sublist" "HOL-Library.Multiset" "HOL-Library.Char_ord"
    "HOL-Library.List_Lexorder"
begin

section \<open>Python strings and lists\<close>

text \<open>
  A Python \<^verbatim>\<open>str\<close> is a \<^typ>\<open>string\<close>; a character is a code point below 256.
  A text stream is the list of its lines, as iteration over the file object yields them.
\<close>

text \<open>\<^verbatim>\<open>sep.join(items)\<close>.\<close>

fun join :: "string \<Rightarrow> string list \<Rightarrow> string" where
  "join sep [] = []"
| "join sep [x] = x"
| "join sep (x # y # ys) = x @ sep @ join sep (y # ys)"

text \<open>\<^verbatim>\<open>s.split(sep)\<close> for a one-character separator: never empty, empty pieces are kept.\<close>

fun split_on :: "char \<Rightarrow> string \<Rightarrow> string list" where
  "split_on sep [] = [[]]"
| "split_on sep (c # cs) =
     (if c = sep then [] # split_on sep cs
      else (case split_on sep cs of
              [] \<Rightarrow> [[c]]
            | p # ps \<Rightarrow> (c # p) # ps))"

text \<open>
  The characters \<^verbatim>\<open>str.split()\<close> and \<^verbatim>\<open>str.strip()\<close> treat as whitespace
  (those with \<^verbatim>\<open>isspace()\<close> true among the code points below 256).
\<close>

definition is_space :: "char \<Rightarrow> bool" where
  "is_space c = (of_char c \<in> {9, 10, 11, 12, 13, 28, 29, 30, 31, 32, 133, 160 :: nat})"

text \<open>\<^verbatim>\<open>s.strip()\<close>.\<close>

definition strip :: "string \<Rightarrow> string" where
  "strip s = rev (dropWhile is_space (rev (dropWhile is_space s)))"

text \<open>
  \<^verbatim>\<open>s.split()\<close>: the maximal runs of non-whitespace characters. The first
  argument is the token being read.
\<close>

fun split_ws :: "string \<Rightarrow> string \<Rightarrow> string list" where
  "split_ws tok [] = (if tok = [] then [] else [tok])"
| "split_ws tok (c # cs) =
     (if is_space c then (if tok = [] then split_ws [] cs else tok # split_ws [] cs)
      else split_ws (tok @ [c]) cs)"

definition split :: "string \<Rightarrow> string list" where
  "split s = split_ws [] s"

text \<open>\<^verbatim>\<open>xs.index(x)\<close>: the first position of \<open>x\<close>; \<open>None\<close> is the ValueError.\<close>

fun index :: "'a list \<Rightarrow> 'a \<Rightarrow> nat option" where
  "index [] x = None"
| "index (y # ys) x = (if y = x then Some 0 else map_option Suc (index ys x))"

text \<open>
  \<^verbatim>\<open>int(s)\<close> on a token without whitespace: an optional sign, then decimal digits,
  single underscores allowed between digits. \<open>None\<close> is the ValueError. The cap on
  the number of digits that later Python versions add (4300 by default) is left out;
  no statement below depends on which long tokens are integers.
\<close>

definition is_digit :: "char \<Rightarrow> bool" where
  "is_digit c = (48 \<le> (of_char c :: nat) \<and> (of_char c :: nat) \<le> 57)"

definition digit_val :: "char \<Rightarrow> int" where
  "digit_val c = int (of_char c) - 48"

fun digits :: "int \<Rightarrow> bool \<Rightarrow> string \<Rightarrow> int option" where
  "digits acc after_digit [] = (if after_digit then Some acc else None)"
| "digits acc after_digit (c # cs) =
     (if is_digit c then digits (10 * acc + digit_val c) True cs
      else if c = CHR ''_'' \<and> after_digit then digits acc False cs
      else None)"

definition py_int :: "string \<Rightarrow> int option" where
  "py_int s =
     (case s of
        [] \<Rightarrow> None
      | c # cs \<Rightarrow>
          if c = CHR ''+'' then digits 0 False cs
          else if c = CHR ''-'' then map_option uminus (digits 0 False cs)
          else digits 0 False s)"

section \<open>The label transform\<close>

text \<open>
  \<^verbatim>\<open>parts[1] if len(parts) >= 2 else item\<close> with \<^verbatim>\<open>parts = item.split("/")\<close>,
  as both branches of \<^verbatim>\<open>transform_file_field\<close> compute it.
\<close>

definition second_field :: "string \<Rightarrow> string" where
  "second_field item =
     (let parts = split_on CHR ''/'' item
      in if length parts \<ge> 2 then parts ! 1 else item)"

text \<open>\<^verbatim>\<open>transform_file_field(file_field, shortname_option)\<close>, the same in both scripts.\<close>

definition transform_file_field :: "string \<Rightarrow> string \<Rightarrow> string" where
  "transform_file_field file_field shortname_option =
     (if shortname_option \<noteq> ''yes'' then file_field
      else if CHR '','' \<in> set file_field
           then join '','' (map second_field (split_on CHR '','' file_field))
           else second_field file_field)"

text \<open>
  The label written by \<^verbatim>\<open>main\<close>: the transformed field, then
  \<^verbatim>\<open>"_" + append_str\<close> when \<^verbatim>\<open>append_str\<close> is not empty.
\<close>

definition label :: "string \<Rightarrow> string \<Rightarrow> string \<Rightarrow> string" where
  "label file_field shortname_option append_str =
     (let s = transform_file_field file_field shortname_option
      in if append_str \<noteq> [] then s @ ''_'' @ append_str else s)"

section \<open>Python numbers\<close>

text \<open>
  Python integers are unbounded: \<^typ>\<open>int\<close>. A true division with a float operand
  (\<^verbatim>\<open>total_bases / 1e9\<close>, \<^verbatim>\<open>total_bases / 2.0\<close>) first converts the integer to
  a double: the nearest value with a 53-bit significand, ties to even, and an
  OverflowError when that value needs more than 1024 bits (it is \<open>2 ^ 1024\<close> or more).
  The double of an integer is an integer again, which \<open>float_of_int\<close> returns.
\<close>

function bit_length :: "int \<Rightarrow> nat" where
  "bit_length n = (if n \<le> 0 then 0 else Suc (bit_length (n div 2)))"
  by auto
termination
  by (relation "measure nat") auto

declare bit_length.simps [simp del]

definition float_of_int :: "int \<Rightarrow> int" where
  "float_of_int n =
     (let a = \<bar>n\<bar>; b = bit_length a
      in if b \<le> 53 then n
         else let e = b - 53;
                  q = a div 2 ^ e;
                  r = a mod 2 ^ e;
                  h = 2 ^ (e - 1);
                  q' = (if r > h \<or> (r = h \<and> odd q) then q + 1 else q)
              in sgn n * (q' * 2 ^ e))"

definition float_overflow :: "int \<Rightarrow> bool" where
  "float_overflow n = (bit_length \<bar>float_of_int n\<bar> > 1024)"

text \<open>
  A float output \<^verbatim>\<open>round(n / d, 2)\<close> is kept as the pair of its integer numerator
  and its divisor: the double arithmetic and the rounding to two decimals are a fixed
  function of the pair and are not computed here. A finite double is a rational; the
  only thing the control flow asks of a divisor is whether it is zero.
\<close>

type_synonym quotient = "int \<times> rat"

datatype error = OverflowError | ZeroDivisionError | KeyError string

section \<open>The length-bucket script\<close>

subsection \<open>Rows\<close>

text \<open>\<^verbatim>\<open>extract_flowcell_id(header, parts)\<close>.\<close>

definition extract_flowcell_id :: "string list \<Rightarrow> string list \<Rightarrow> string" where
  "extract_flowcell_id header parts =
     (case (case index header ''filename_pod5'' of
              Some i \<Rightarrow> Some i
            | None \<Rightarrow> index header ''filename'') of
        None \<Rightarrow> []
      | Some idx \<Rightarrow>
          if length parts > idx
          then (case split_on CHR ''_'' (parts ! idx) of [] \<Rightarrow> [] | p # ps \<Rightarrow> p)
          else [])"

text \<open>
  The file system as the scripts see it: a path that cannot be opened has no stream,
  any other has its lines. \<^verbatim>\<open>f.readline()\<close> takes the first line (the empty string
  at the end of the file), the loop \<^verbatim>\<open>for line in f\<close> the others.
\<close>

type_synonym files = "string \<Rightarrow> string list option"

definition readline :: "string list \<Rightarrow> string \<times> string list" where
  "readline lines = (case lines of [] \<Rightarrow> ([], []) | l # ls \<Rightarrow> (l, ls))"

text \<open>The local variables both loops share, and those of each loop.\<close>

record reads =
  read_lengths :: "int list"
  bases :: int

record single = reads +
  flowcell :: "string option"

record aggregated = reads +
  flowcell_ids :: "string set"
  file_names :: "string list"

text \<open>The body of the loop of \<^verbatim>\<open>process_single_file\<close> (lines 87 to 104).\<close>

definition single_line :: "string list \<Rightarrow> nat \<Rightarrow> string \<Rightarrow> single \<Rightarrow> single" where
  "single_line header length_index line st =
     (if sublist ''filename'' line \<and> sublist ''read_id'' line then st
      else let parts = split (strip line)
           in if length parts \<le> length_index then st
              else let st1 = (if flowcell st = None
                              then st\<lparr>flowcell := Some (extract_flowcell_id header parts)\<rparr>
                              else st)
                   in (case py_int (parts ! length_index) of
                         None \<Rightarrow> st1
                       | Some len \<Rightarrow>
                           st1\<lparr>read_lengths := read_lengths st1 @ [len],
                               bases := bases st1 + len\<rparr>))"

fun single_loop :: "string list \<Rightarrow> nat \<Rightarrow> string list \<Rightarrow> single \<Rightarrow> single" where
  "single_loop header length_index [] st = st"
| "single_loop header length_index (line # rest) st =
     single_loop header length_index rest (single_line header length_index line st)"

text \<open>The body of the inner loop of \<^verbatim>\<open>process_aggregated_files\<close> (lines 168 to 186).\<close>

definition aggregated_line ::
  "string list \<Rightarrow> nat \<Rightarrow> string \<Rightarrow> aggregated \<Rightarrow> aggregated" where
  "aggregated_line header length_index line st =
     (if sublist ''filename'' line \<and> sublist ''read_id'' line then st
      else let parts = split (strip line)
           in if length parts \<le> length_index then st
              else let flowcell_id = extract_flowcell_id header parts;
                       st1 = (if flowcell_id \<noteq> []
                              then st\<lparr>flowcell_ids := insert flowcell_id (flowcell_ids st)\<rparr>
                              else st)
                   in (case py_int (parts ! length_index) of
                         None \<Rightarrow> st1
                       | Some len \<Rightarrow>
                           st1\<lparr>read_lengths := read_lengths st1 @ [len],
                               bases := bases st1 + len\<rparr>))"

fun aggregated_lines ::
  "string list \<Rightarrow> nat \<Rightarrow> string list \<Rightarrow> aggregated \<Rightarrow> aggregated" where
  "aggregated_lines header length_index [] st = st"
| "aggregated_lines header length_index (line # rest) st =
     aggregated_lines header length_index rest (aggregated_line header length_index line st)"

text \<open>The body of the outer loop (lines 152 to 188): one file.\<close>

definition aggregated_file :: "files \<Rightarrow> string \<Rightarrow> aggregated \<Rightarrow> aggregated" where
  "aggregated_file fs inFile st =
     (case fs inFile of
        None \<Rightarrow> st
      | Some lines \<Rightarrow>
          let st1 = st\<lparr>file_names := file_names st @ [inFile]\<rparr>;
              (first, rest) = readline lines;
              header = split (strip first)
          in (case index header ''sequence_length_template'' of
                None \<Rightarrow> st1
              | Some length_index \<Rightarrow> aggregated_lines header length_index rest st1))"

fun aggregated_loop :: "files \<Rightarrow> string list \<Rightarrow> aggregated \<Rightarrow> aggregated" where
  "aggregated_loop fs [] st = st"
| "aggregated_loop fs (inFile # rest) st = aggregated_loop fs rest (aggregated_file fs inFile st)"

subsection \<open>The summary\<close>

text \<open>
  \<^verbatim>\<open>target = total_bases / 2.0\<close>: the double of the total, halved (exactly, as a
  double). Python compares an integer with a double by their exact values.
\<close>

definition target_of :: "int \<Rightarrow> rat" where
  "target_of total_bases = of_int (float_of_int total_bases) / 2"

text \<open>The N50 loop: \<^verbatim>\<open>n50_val\<close> stays 0 when the loop ends without a break.\<close>

fun n50_loop :: "rat \<Rightarrow> int \<Rightarrow> int list \<Rightarrow> int" where
  "n50_loop target cumulative [] = 0"
| "n50_loop target cumulative (x # xs) =
     (if of_int (cumulative + x) \<ge> target then x
      else n50_loop target (cumulative + x) xs)"

text \<open>
  The buckets: \<^verbatim>\<open>sum(i for i in read_lengths if i >= cutoff)\<close> and
  \<^verbatim>\<open>len([i for i in read_lengths if i >= cutoff])\<close>.
\<close>

definition bases_at_least :: "int \<Rightarrow> int list \<Rightarrow> int" where
  "bases_at_least cutoff lengths = sum_list (filter (\<lambda>i. i \<ge> cutoff) lengths)"

definition reads_at_least :: "int \<Rightarrow> int list \<Rightarrow> nat" where
  "reads_at_least cutoff lengths = length (filter (\<lambda>i. i \<ge> cutoff) lengths)"

text \<open>The row both functions return, one field for each key of the dictionary.\<close>

record result =
  File :: string
  flowcell_id :: string
  read_N50 :: int
  Gb :: quotient
  coverage :: quotient
  kb20 :: quotient
  kb40 :: quotient
  kb60 :: quotient
  kb80 :: quotient
  kb100 :: quotient
  whales :: nat

text \<open>
  Lines 108 to 144 of \<^verbatim>\<open>process_single_file\<close> and lines 190 to 226 of
  \<^verbatim>\<open>process_aggregated_files\<close> are the same code but for the two label fields and
  the cutoff of the \<^verbatim>\<open>whales\<close> count, which are the first three arguments here.
  The exceptions are raised in the order of the source: the conversion of
  \<^verbatim>\<open>total_bases\<close> for \<^verbatim>\<open>total_bases / 1e9\<close>, the division by
  \<^verbatim>\<open>actual_genome_size\<close>, the conversions of the bucket sums.
\<close>

definition summary ::
  "int \<Rightarrow> string \<Rightarrow> string \<Rightarrow> int list \<Rightarrow> int \<Rightarrow> rat \<Rightarrow> error + result option" where
  "summary whale_cutoff file_field flowcell_field lengths total_bases actual_genome_size =
     (if lengths = [] then Inr None
      else let sorted_lengths = rev (sort lengths)
           in if float_overflow total_bases then Inl OverflowError
              else let target = target_of total_bases;
                       n50_val = n50_loop target 0 sorted_lengths
                   in if actual_genome_size = 0 then Inl ZeroDivisionError
                      else let lt20 = bases_at_least 20000 sorted_lengths;
                               lt40 = bases_at_least 40000 sorted_lengths;
                               lt60 = bases_at_least 60000 sorted_lengths;
                               lt80 = bases_at_least 80000 sorted_lengths;
                               lt100 = bases_at_least 100000 sorted_lengths;
                               num1000 = reads_at_least whale_cutoff sorted_lengths
                           in if float_overflow lt20 \<or> float_overflow lt40 \<or> float_overflow lt60
                                 \<or> float_overflow lt80 \<or> float_overflow lt100
                              then Inl OverflowError
                              else Inr (Some \<lparr>File = file_field,
                                               flowcell_id = flowcell_field,
                                               read_N50 = n50_val,
                                               Gb = (total_bases, 1000000000),
                                               coverage = (total_bases, actual_genome_size),
                                               kb20 = (lt20, actual_genome_size),
                                               kb40 = (lt40, actual_genome_size),
                                               kb60 = (lt60, actual_genome_size),
                                               kb80 = (lt80, actual_genome_size),
                                               kb100 = (lt100, actual_genome_size),
                                               whales = num1000\<rparr>))"

subsection \<open>The two entry points\<close>

definition process_single_file :: "files \<Rightarrow> string \<Rightarrow> rat \<Rightarrow> error + result option" where
  "process_single_file fs inFile actual_genome_size =
     (case fs inFile of
        None \<Rightarrow> Inr None
      | Some lines \<Rightarrow>
          let (first, rest) = readline lines;
              header = split (strip first)
          in (case index header ''sequence_length_template'' of
                None \<Rightarrow> Inr None
              | Some length_index \<Rightarrow>
                  let st = single_loop header length_index rest
                             \<lparr>read_lengths = [], bases = 0, flowcell = None\<rparr>
                  in summary 1000000 inFile
                       (case flowcell st of None \<Rightarrow> [] | Some s \<Rightarrow> s)
                       (read_lengths st) (bases st) actual_genome_size))"

definition process_aggregated_files ::
  "files \<Rightarrow> string list \<Rightarrow> rat \<Rightarrow> error + result option" where
  "process_aggregated_files fs files actual_genome_size =
     (let st = aggregated_loop fs files
                 \<lparr>read_lengths = [], bases = 0, flowcell_ids = {}, file_names = []\<rparr>
      in summary 100000 (join '','' (file_names st))
           (join '','' (sorted_list_of_set (flowcell_ids st)))
           (read_lengths st) (bases st) actual_genome_size)"

subsection \<open>The two modes of \<^verbatim>\<open>main\<close>\<close>

text \<open>
  Directory mode (lines 290 to 304), for the files globbing has found: each row is
  written as soon as its file is done, so an exception leaves the rows before it.
\<close>

fun main_directory ::
  "files \<Rightarrow> string list \<Rightarrow> rat \<Rightarrow> string \<Rightarrow> string \<Rightarrow> result list \<times> error option" where
  "main_directory fs [] actual_genome_size shortname append_str = ([], None)"
| "main_directory fs (f # rest) actual_genome_size shortname append_str =
     (case process_single_file fs f actual_genome_size of
        Inl e \<Rightarrow> ([], Some e)
      | Inr None \<Rightarrow> main_directory fs rest actual_genome_size shortname append_str
      | Inr (Some stats) \<Rightarrow>
          (let (written, e) = main_directory fs rest actual_genome_size shortname append_str
           in (stats\<lparr>File := label (File stats) shortname append_str\<rparr> # written, e)))"

text \<open>Aggregated mode (lines 308 to 314).\<close>

definition main_aggregated ::
  "files \<Rightarrow> string list \<Rightarrow> rat \<Rightarrow> string \<Rightarrow> string \<Rightarrow> error + result option" where
  "main_aggregated fs args actual_genome_size shortname append_str =
     (case process_aggregated_files fs args actual_genome_size of
        Inl e \<Rightarrow> Inl e
      | Inr None \<Rightarrow> Inr None
      | Inr (Some stats) \<Rightarrow>
          Inr (Some (stats\<lparr>File := label (File stats) shortname append_str\<rparr>)))"

section \<open>The quality-bucket script\<close>

text \<open>
  \<^verbatim>\<open>pd.read_csv\<close> is library code: what it returns is an input here. A frame has
  its column names and its rows, a row being its values in the two columns the script
  reads, \<^verbatim>\<open>mean_qscore_template\<close> (a finite double, so a rational) and
  \<^verbatim>\<open>sequence_length_template\<close> (an int64). A path either cannot be opened, or
  \<^verbatim>\<open>read_csv\<close> raises on its stream, or it yields a frame.
\<close>

record frame =
  columns :: "string list"
  records :: "(rat \<times> int) list"

datatype csv = Unreadable | Frame frame

type_synonym rna_files = "string \<Rightarrow> csv option"

text \<open>
  \<^verbatim>\<open>np.sum(bases)\<close> and the sum of two int64 scalars are int64 again: the exact
  result wraps around modulo \<open>2 ^ 64\<close> into the range from \<open>- 2 ^ 63\<close> to
  \<open>2 ^ 63 - 1\<close>.
\<close>

definition wrap64 :: "int \<Rightarrow> int" where
  "wrap64 x = (x + 9223372036854775808) mod 18446744073709551616 - 9223372036854775808"

text \<open>
  The N50 loop of this script (lines 105 to 109 and 187 to 191).
  \<^verbatim>\<open>list(bases)\<close> holds Python integers, so the running sum is exact; the target is
  a \<^verbatim>\<open>numpy.float64\<close>, and the comparison with it converts the running sum to a
  double first.
\<close>

fun rna_n50_loop :: "rat \<Rightarrow> int \<Rightarrow> int list \<Rightarrow> int" where
  "rna_n50_loop target cumulative_bases [] = 0"
| "rna_n50_loop target cumulative_bases (x # xs) =
     (if of_int (float_of_int (cumulative_bases + x)) \<ge> target then x
      else rna_n50_loop target (cumulative_bases + x) xs)"

text \<open>\<^verbatim>\<open>df.drop(columns=[...], errors='ignore')\<close>.\<close>

definition drop_columns :: "frame \<Rightarrow> frame" where
  "drop_columns df =
     df\<lparr>columns := filter (\<lambda>c. c \<notin> set [''filename'', ''read_id'', ''run_id'', ''channel'',
                                ''mux'', ''start_time'', ''duration'', ''template_start'',
                                ''template_duration'']) (columns df)\<rparr>"

text \<open>\<^verbatim>\<open>len(df[df['mean_qscore_template'] >= cutoff])\<close>.\<close>

definition reads_at_quality :: "rat \<Rightarrow> frame \<Rightarrow> nat" where
  "reads_at_quality cutoff df = length (filter (\<lambda>r. fst r \<ge> cutoff) (records df))"

record rna_result =
  Sample :: string
  total_Gbp :: quotient
  N50 :: int
  total_reads_M :: quotient
  q5_reads_M :: quotient
  q10_reads_M :: quotient
  q15_reads_M :: quotient
  q20_reads_M :: quotient
  q25_reads_M :: quotient

text \<open>
  \<^verbatim>\<open>process_rna_file(inFile)\<close>. Subscripting the frame with a column it does not
  have raises a KeyError, which nothing catches.
\<close>

definition process_rna_file :: "rna_files \<Rightarrow> string \<Rightarrow> error + rna_result option" where
  "process_rna_file fs inFile =
     (case fs inFile of
        None \<Rightarrow> Inr None
      | Some Unreadable \<Rightarrow> Inr None
      | Some (Frame df0) \<Rightarrow>
          let df = drop_columns df0
          in if ''mean_qscore_template'' \<notin> set (columns df)
             then Inl (KeyError ''mean_qscore_template'')
             else let count_q5 = reads_at_quality 5 df;
                      count_q10 = reads_at_quality 10 df;
                      count_q15 = reads_at_quality 15 df;
                      count_q20 = reads_at_quality 20 df;
                      count_q25 = reads_at_quality 25 df
                  in if ''sequence_length_template'' \<notin> set (columns df)
                     then Inl (KeyError ''sequence_length_template'')
                     else let bases = map snd (records df);
                              total_bases = wrap64 (sum_list bases);
                              total_reads = length (records df);
                              read_lengths = rev (sort bases);
                              target = target_of total_bases;
                              N50 = rna_n50_loop target 0 read_lengths
                          in Inr (Some \<lparr>Sample = inFile,
                                           total_Gbp = (total_bases, 1000000000),
                                           N50 = N50,
                                           total_reads_M = (int total_reads, 1000000),
                                           q5_reads_M = (int count_q5, 1000000),
                                           q10_reads_M = (int count_q10, 1000000),
                                           q15_reads_M = (int count_q15, 1000000),
                                           q20_reads_M = (int count_q20, 1000000),
                                           q25_reads_M = (int count_q25, 1000000)\<rparr>))"

text \<open>The local variables of \<^verbatim>\<open>process_aggregated_rna_files\<close>.\<close>

record rna_totals =
  total_reads :: nat
  total_bases :: int
  count_q5 :: nat
  count_q10 :: nat
  count_q15 :: nat
  count_q20 :: nat
  count_q25 :: nat
  rna_read_lengths :: "int list"

text \<open>Its loop over the files (lines 141 to 178).\<close>

fun rna_loop :: "rna_files \<Rightarrow> string list \<Rightarrow> rna_totals \<Rightarrow> error + rna_totals" where
  "rna_loop fs [] t = Inr t"
| "rna_loop fs (inFile # rest) t =
     (case fs inFile of
        None \<Rightarrow> rna_loop fs rest t
      | Some Unreadable \<Rightarrow> rna_loop fs rest t
      | Some (Frame df0) \<Rightarrow>
          let df = drop_columns df0
          in if ''mean_qscore_template'' \<notin> set (columns df)
             then Inl (KeyError ''mean_qscore_template'')
             else if ''sequence_length_template'' \<notin> set (columns df)
             then Inl (KeyError ''sequence_length_template'')
             else let bases = map snd (records df)
                  in rna_loop fs rest
                       (t\<lparr>count_q5 := count_q5 t + reads_at_quality 5 df,
                          count_q10 := count_q10 t + reads_at_quality 10 df,
                          count_q15 := count_q15 t + reads_at_quality 15 df,
                          count_q20 := count_q20 t + reads_at_quality 20 df,
                          count_q25 := count_q25 t + reads_at_quality 25 df,
                          total_bases := wrap64 (total_bases t + wrap64 (sum_list bases)),
                          total_reads := total_reads t + length (records df),
                          rna_read_lengths := rna_read_lengths t @ bases\<rparr>))"

definition process_aggregated_rna_files ::
  "rna_files \<Rightarrow> string list \<Rightarrow> error + rna_result option" where
  "process_aggregated_rna_files fs file_list =
     (case rna_loop fs file_list
             \<lparr>total_reads = 0, total_bases = 0, count_q5 = 0, count_q10 = 0, count_q15 = 0,
              count_q20 = 0, count_q25 = 0, rna_read_lengths = []\<rparr> of
        Inl e \<Rightarrow> Inl e
      | Inr t \<Rightarrow>
          if total_reads t = 0 then Inr None
          else let read_lengths = rev (sort (rna_read_lengths t));
                   target = target_of (total_bases t);
                   N50 = rna_n50_loop target 0 read_lengths
               in Inr (Some \<lparr>Sample = join '','' file_list,
                                total_Gbp = (total_bases t, 1000000000),
                                N50 = N50,
                                total_reads_M = (int (total_reads t), 1000000),
                                q5_reads_M = (int (count_q5 t), 1000000),
                                q10_reads_M = (int (count_q10 t), 1000000),
                                q15_reads_M = (int (count_q15 t), 1000000),
                                q20_reads_M = (int (count_q20 t), 1000000),
                                q25_reads_M = (int (count_q25 t), 1000000)\<rparr>))"

text \<open>
  Directory mode of its \<^verbatim>\<open>main\<close> (lines 259 to 268): the results are collected
  first and written afterwards, so an exception in the loop leaves no row.
\<close>

fun rna_main_directory ::
  "rna_files \<Rightarrow> string list \<Rightarrow> string \<Rightarrow> string \<Rightarrow> error + rna_result list" where
  "rna_main_directory fs [] shortname append_str = Inr []"
| "rna_main_directory fs (f # rest) shortname append_str =
     (case process_rna_file fs f of
        Inl e \<Rightarrow> Inl e
      | Inr res \<Rightarrow>
          (case rna_main_directory fs rest shortname append_str of
             Inl e \<Rightarrow> Inl e
           | Inr results \<Rightarrow>
               Inr ((case res of
                       None \<Rightarrow> []
                     | Some r \<Rightarrow> [r\<lparr>Sample := label (Sample r) shortname append_str\<rparr>])
                    @ results)))"

section \<open>Notions used in the statements\<close>

text \<open>
  A row is a candidate when it passes the two tests before the identifier is taken:
  it does not hold both header markers, and it has a field at the length column.
\<close>

definition candidate :: "nat \<Rightarrow> string \<Rightarrow> bool" where
  "candidate length_index line =
     (\<not> (sublist ''filename'' line \<and> sublist ''read_id'' line)
      \<and> length (split (strip line)) > length_index)"

text \<open>The length a row contributes, if any, and the identifier taken from a row.\<close>

definition accepted :: "nat \<Rightarrow> string \<Rightarrow> int option" where
  "accepted length_index line =
     (if candidate length_index line then py_int (split (strip line) ! length_index)
      else None)"

definition row_id :: "string list \<Rightarrow> string \<Rightarrow> string" where
  "row_id header line = extract_flowcell_id header (split (strip line))"

text \<open>The lengths and the identifiers one file contributes to an aggregated batch.\<close>

definition file_lengths :: "files \<Rightarrow> string \<Rightarrow> int list" where
  "file_lengths fs inFile =
     (case fs inFile of
        None \<Rightarrow> []
      | Some lines \<Rightarrow>
          let (first, rest) = readline lines;
              header = split (strip first)
          in (case index header ''sequence_length_template'' of
                None \<Rightarrow> []
              | Some length_index \<Rightarrow> List.map_filter (accepted length_index) rest))"

definition file_ids :: "files \<Rightarrow> string \<Rightarrow> string set" where
  "file_ids fs inFile =
     (case fs inFile of
        None \<Rightarrow> {}
      | Some lines \<Rightarrow>
          let (first, rest) = readline lines;
              header = split (strip first)
          in (case index header ''sequence_length_template'' of
                None \<Rightarrow> {}
              | Some length_index \<Rightarrow>
                  set (filter (\<lambda>s. s \<noteq> [])
                        (map (row_id header) (filter (candidate length_index) rest)))))"

text \<open>
  The N50 contract of the specification, with its target, half the total. Position
  \<open>k\<close> is the first of \<open>xs\<close> where the running sum reaches or exceeds the target;
  \<open>n\<close> meets the contract for the lengths \<open>ls\<close> when it is the value at that
  position of the lengths in descending order, such a position exists whenever no
  length is negative, and \<open>n\<close> is 0 where there is none.
\<close>

definition first_reaching :: "int list \<Rightarrow> rat \<Rightarrow> nat \<Rightarrow> bool" where
  "first_reaching xs target k =
     (k < length xs \<and> of_int (sum_list (take (Suc k) xs)) \<ge> target
      \<and> (\<forall>j\<in>{..<k}. of_int (sum_list (take (Suc j) xs)) < target))"

definition n50_contract :: "int list \<Rightarrow> int \<Rightarrow> bool" where
  "n50_contract ls n =
     (let xs = rev (sort ls); target = of_int (sum_list ls) / 2
      in (\<forall>k. first_reaching xs target k \<longrightarrow> n = xs ! k)
         \<and> (ls \<noteq> [] \<and> (\<forall>x\<in>set ls. 0 \<le> x) \<longrightarrow> (\<exists>k. first_reaching xs target k))
         \<and> ((\<forall>k. \<not> first_reaching xs target k) \<longrightarrow> n = 0))"

text \<open>The numeric fields of a row, and of the outcome of a run.\<close>

definition numbers ::
  "result \<Rightarrow> int \<times> quotient \<times> quotient \<times> quotient \<times> quotient \<times> quotient \<times> quotient \<times> quotient \<times> nat" where
  "numbers r =
     (read_N50 r, Gb r, coverage r, kb20 r, kb40 r, kb60 r, kb80 r, kb100 r, whales r)"

definition numeric ::
  "error + result option \<Rightarrow>
   error + (int \<times> quotient \<times> quotient \<times> quotient \<times> quotient \<times> quotient \<times> quotient \<times> quotient \<times> nat) option" where
  "numeric outcome = map_sum id (map_option numbers) outcome"

section \<open>Properties of the label transform\<close>

lemma split_on_no_sep: "sep \<notin> set s \<Longrightarrow> split_on sep s = [s]"
  by (induction s) auto

lemma second_field_cases:
  "second_field item = (case split_on CHR ''/'' item of a # b # rest \<Rightarrow> b | _ \<Rightarrow> item)"
  by (simp add: second_field_def Let_def split: list.splits)

text \<open>
  Claim C9. With shortening on, the transform maps every comma-separated component of
  the label to its second \<open>/\<close>-separated segment when it has one and leaves it
  unchanged otherwise; with shortening off the label is unchanged; a non-empty suffix
  is appended after an underscore. The two examples of the specification are the last
  two conjuncts.
\<close>

theorem label_transform:
  "transform_file_field file_field ''yes''
     = join '','' (map second_field (split_on CHR '','' file_field))
   \<and> second_field item
     = (case split_on CHR ''/'' item of a # b # rest \<Rightarrow> b | _ \<Rightarrow> item)
   \<and> (shortname_option \<noteq> ''yes'' \<longrightarrow>
        transform_file_field file_field shortname_option = file_field)
   \<and> (append_str \<noteq> [] \<longrightarrow>
        label file_field shortname_option append_str
          = transform_file_field file_field shortname_option @ ''_'' @ append_str)
   \<and> label file_field shortname_option [] = transform_file_field file_field shortname_option
   \<and> label ''runA/sample1/raw.txt'' ''yes'' [] = ''sample1''
   \<and> label ''runA/sample1/raw.txt'' ''yes'' ''fast'' = ''sample1_fast''"
proof -
  have "transform_file_field file_field ''yes''
          = join '','' (map second_field (split_on CHR '','' file_field))"
    by (simp add: transform_file_field_def split_on_no_sep)
  moreover have "label ''runA/sample1/raw.txt'' ''yes'' [] = ''sample1''"
    by code_simp
  moreover have "label ''runA/sample1/raw.txt'' ''yes'' ''fast'' = ''sample1_fast''"
    by code_simp
  ultimately show ?thesis
    by (simp add: second_field_cases label_def transform_file_field_def)
qed

theorem label_transform_witness:
  "transform_file_field ''runA/s1/raw.txt,runB/s2/raw.txt,plain'' ''yes'' = ''s1,s2,plain''
   \<and> transform_file_field ''runA/s1/raw.txt'' ''no'' = ''runA/s1/raw.txt''
   \<and> label ''runA/s1/raw.txt'' ''no'' ''fast'' = ''runA/s1/raw.txt_fast''"
proof -
  have a: "''no'' \<noteq> ''yes''" and b: "''fast'' \<noteq> []"
    by simp_all
  have j: "join '','' (map second_field
             (split_on CHR '','' ''runA/s1/raw.txt,runB/s2/raw.txt,plain'')) = ''s1,s2,plain''"
    by code_simp
  show ?thesis
    using label_transform [of "''runA/s1/raw.txt,runB/s2/raw.txt,plain''" "''plain''" "''no''" "''fast''"]
          label_transform [of "''runA/s1/raw.txt''" "''plain''" "''no''" "''fast''"] a b j
    by simp
qed

section \<open>The loops in closed form\<close>

lemma single_line_eq:
  "single_line header i l st =
     st\<lparr>read_lengths := read_lengths st @ (case accepted i l of None \<Rightarrow> [] | Some n \<Rightarrow> [n]),
        bases := bases st + (case accepted i l of None \<Rightarrow> 0 | Some n \<Rightarrow> n),
        flowcell := (if candidate i l \<and> flowcell st = None then Some (row_id header l)
                     else flowcell st)\<rparr>"
  by (simp add: single_line_def accepted_def candidate_def row_id_def Let_def split: option.splits)

lemma single_loop_read_lengths:
  "read_lengths (single_loop header i ls st) = read_lengths st @ List.map_filter (accepted i) ls"
  by (induction ls arbitrary: st) (simp_all add: single_line_eq List.map_filter_simps split: option.splits)

lemma single_loop_bases:
  "bases (single_loop header i ls st) = bases st + sum_list (List.map_filter (accepted i) ls)"
  by (induction ls arbitrary: st) (simp_all add: single_line_eq List.map_filter_simps split: option.splits)

lemma single_loop_flowcell:
  "flowcell (single_loop header i ls st) =
     (case flowcell st of
        Some s \<Rightarrow> Some s
      | None \<Rightarrow> (case filter (candidate i) ls of [] \<Rightarrow> None | l # _ \<Rightarrow> Some (row_id header l)))"
  by (induction ls arbitrary: st) (simp_all add: single_line_eq split: option.splits)

lemma aggregated_line_eq:
  "aggregated_line header i l st =
     st\<lparr>read_lengths := read_lengths st @ (case accepted i l of None \<Rightarrow> [] | Some n \<Rightarrow> [n]),
        bases := bases st + (case accepted i l of None \<Rightarrow> 0 | Some n \<Rightarrow> n),
        flowcell_ids := (if candidate i l \<and> row_id header l \<noteq> []
                         then insert (row_id header l) (flowcell_ids st) else flowcell_ids st)\<rparr>"
  by (simp add: aggregated_line_def accepted_def candidate_def row_id_def Let_def split: option.splits)

lemma aggregated_lines_eq:
  "aggregated_lines header i ls st =
     st\<lparr>read_lengths := read_lengths st @ List.map_filter (accepted i) ls,
        bases := bases st + sum_list (List.map_filter (accepted i) ls),
        flowcell_ids := flowcell_ids st
           \<union> set (filter (\<lambda>s. s \<noteq> []) (map (row_id header) (filter (candidate i) ls)))\<rparr>"
proof (induction ls arbitrary: st)
  case Nil
  show ?case by (simp add: List.map_filter_simps)
next
  case (Cons l ls)
  show ?case
    by (cases "accepted i l")
       (simp_all add: Cons aggregated_line_eq List.map_filter_simps del: set_filter)
qed

lemma aggregated_file_eq:
  "aggregated_file fs f st =
     st\<lparr>read_lengths := read_lengths st @ file_lengths fs f,
        bases := bases st + sum_list (file_lengths fs f),
        flowcell_ids := flowcell_ids st \<union> file_ids fs f,
        file_names := file_names st @ (if fs f = None then [] else [f])\<rparr>"
  by (simp add: aggregated_file_def file_lengths_def file_ids_def aggregated_lines_eq Let_def
        split: option.splits prod.splits)

lemma aggregated_loop_eq:
  "aggregated_loop fs files st =
     st\<lparr>read_lengths := read_lengths st @ concat (map (file_lengths fs) files),
        bases := bases st + sum_list (concat (map (file_lengths fs) files)),
        flowcell_ids := flowcell_ids st \<union> (\<Union>f\<in>set files. file_ids fs f),
        file_names := file_names st @ filter (\<lambda>f. fs f \<noteq> None) files\<rparr>"
  by (induction files arbitrary: st) (simp_all add: aggregated_file_eq Un_assoc add.assoc)

section \<open>The entry points in closed form\<close>

lemma process_aggregated_files_eq:
  "process_aggregated_files fs files actual_genome_size =
     summary 100000 (join '','' (filter (\<lambda>f. fs f \<noteq> None) files))
       (join '','' (sorted_list_of_set (\<Union>f\<in>set files. file_ids fs f)))
       (concat (map (file_lengths fs) files))
       (sum_list (concat (map (file_lengths fs) files))) actual_genome_size"
  by (simp add: process_aggregated_files_def aggregated_loop_eq Let_def)

lemma process_single_file_eq:
  "process_single_file fs f actual_genome_size =
     (case fs f of
        None \<Rightarrow> Inr None
      | Some lines \<Rightarrow>
          (case index (split (strip (fst (readline lines)))) ''sequence_length_template'' of
             None \<Rightarrow> Inr None
           | Some i \<Rightarrow>
               summary 1000000 f
                 (case filter (candidate i) (snd (readline lines)) of
                    [] \<Rightarrow> []
                  | l # _ \<Rightarrow> row_id (split (strip (fst (readline lines)))) l)
                 (file_lengths fs f) (sum_list (file_lengths fs f)) actual_genome_size))"
  by (simp add: process_single_file_def file_lengths_def single_loop_read_lengths
        single_loop_bases single_loop_flowcell Let_def split: option.splits prod.splits list.splits)

lemma sort_mset_cong: "mset xs = mset ys \<Longrightarrow> sort xs = sort (ys :: int list)"
  by (metis sorted_list_of_multiset_mset)

lemma summary_mset_cong:
  assumes "mset ls = mset ls'"
  shows "summary w a b ls t s = summary w a b ls' t s"
proof -
  have "sort ls = sort ls'" using assms by (rule sort_mset_cong)
  moreover have "(ls = []) = (ls' = [])" using assms by (metis mset_zero_iff)
  ultimately show ?thesis by (simp add: summary_def)
qed

lemma numeric_summary_labels:
  "numeric (summary w a b ls t s) = numeric (summary w a' b' ls t s)"
  by (simp add: summary_def numeric_def numbers_def Let_def)

lemma mset_concat_map: "mset (concat (map g xs)) = (\<Sum>x\<in>#mset xs. mset (g x))"
  by (induction xs) simp_all

lemma aggregated_numeric_perm:
  assumes "mset files = mset files'"
  shows "numeric (process_aggregated_files fs files actual_genome_size)
       = numeric (process_aggregated_files fs files' actual_genome_size)"
proof -
  let ?ls = "concat (map (file_lengths fs) files)"
  let ?ls' = "concat (map (file_lengths fs) files')"
  have m: "mset ?ls = mset ?ls'"
    using assms by (simp add: mset_concat_map)
  then have "sum_mset (mset ?ls) = sum_mset (mset ?ls')" by simp
  then have t: "sum_list ?ls = sum_list ?ls'" by (simp add: sum_mset_sum_list)
  show ?thesis
    unfolding process_aggregated_files_eq t
    using summary_mset_cong [OF m] numeric_summary_labels by metis
qed

section \<open>Aggregation and the single stream\<close>

lemma reads_at_least_mset_cong:
  "mset ls = mset ls' \<Longrightarrow> reads_at_least c ls = reads_at_least c ls'"
  unfolding reads_at_least_def by (metis mset_filter size_mset)

lemma bases_at_least_mset_cong:
  "mset ls = mset ls' \<Longrightarrow> bases_at_least c ls = bases_at_least c ls'"
  unfolding bases_at_least_def by (metis mset_filter sum_mset_sum_list)

lemma mset_rev_sort: "mset (rev (sort ls)) = mset (ls :: int list)"
  by simp

lemma summary_whale_cutoff:
  "summary w' a b ls t s
     = map_sum id (map_option (\<lambda>r. r\<lparr>whales := reads_at_least w' ls\<rparr>)) (summary w a b ls t s)"
  using reads_at_least_mset_cong [OF mset_rev_sort, of w' ls]
  by (simp add: summary_def Let_def)

lemma map_filter_concat:
  "List.map_filter h (concat xss) = concat (map (List.map_filter h) xss)"
  by (induction xss) (simp_all add: List.map_filter_def)

lemma file_lengths_one_stream:
  assumes "list_all2 (\<lambda>f rows. fs f = Some (first # rows)) files rowss"
      and "fs g = Some (first # concat rowss)"
  shows "file_lengths fs g = concat (map (file_lengths fs) files)"
proof (cases "index (split (strip first)) ''sequence_length_template''")
  case None
  have "concat (map (file_lengths fs) files) = []"
    using assms(1) None
    by (induction rule: list_all2_induct) (simp_all add: file_lengths_def readline_def)
  then show ?thesis
    using assms(2) None by (simp add: file_lengths_def readline_def)
next
  case (Some i)
  have "concat (map (file_lengths fs) files) = concat (map (List.map_filter (accepted i)) rowss)"
    using assms(1) Some
    by (induction rule: list_all2_induct) (simp_all add: file_lengths_def readline_def)
  then show ?thesis
    using assms(2) Some by (simp add: file_lengths_def readline_def map_filter_concat)
qed

text \<open>
  A batch of files with one header line, and the stream that holds that line and then
  the rows of all of them: the aggregated row of the batch and the per-file row of the
  stream agree in every numeric field but the count of very long reads, whose cutoffs
  differ.
\<close>

lemma batch_and_one_stream:
  assumes "list_all2 (\<lambda>f rows. fs f = Some (first # rows)) files rowss"
      and "fs g = Some (first # concat rowss)"
      and "process_single_file fs g actual_genome_size = Inr (Some r)"
  shows "\<exists>r'. process_aggregated_files fs files actual_genome_size = Inr (Some r')
           \<and> read_N50 r' = read_N50 r \<and> Gb r' = Gb r
           \<and> coverage r' = coverage r \<and> kb20 r' = kb20 r \<and> kb40 r' = kb40 r
           \<and> kb60 r' = kb60 r \<and> kb80 r' = kb80 r \<and> kb100 r' = kb100 r
           \<and> whales r = reads_at_least 1000000 (file_lengths fs g)
           \<and> whales r' = reads_at_least 100000 (file_lengths fs g)"
proof -
  let ?ls = "file_lengths fs g"
  have c: "concat (map (file_lengths fs) files) = ?ls"
    using file_lengths_one_stream [OF assms(1,2)] by simp
  obtain b where s: "summary 1000000 g b ?ls (sum_list ?ls) actual_genome_size = Inr (Some r)"
    using assms(2,3) by (auto simp add: process_single_file_eq split: option.splits)
  have w: "whales r = reads_at_least 1000000 ?ls"
    using s reads_at_least_mset_cong [OF mset_rev_sort, of 1000000 ?ls]
    by (auto simp add: summary_def Let_def split: if_splits)
  let ?a' = "join '','' (filter (\<lambda>f. fs f \<noteq> None) files)"
  let ?b' = "join '','' (sorted_list_of_set (\<Union>f\<in>set files. file_ids fs f))"
  have "summary 100000 ?a' ?b' ?ls (sum_list ?ls) actual_genome_size
          = Inr (Some (r\<lparr>File := ?a', flowcell_id := ?b',
                            whales := reads_at_least 100000 ?ls\<rparr>))"
    using s reads_at_least_mset_cong [OF mset_rev_sort, of 100000 ?ls]
    by (auto simp add: summary_def Let_def split: if_splits)
  then show ?thesis
    using w by (simp add: process_aggregated_files_eq c)
qed

text \<open>
  Claim C1. The fields compared are those of the aggregated row of a batch and of the
  row of the single stream holding all rows of the batch. At the batch below they
  differ in the count of very long reads: the read of 500000 bases is counted by
  \<^verbatim>\<open>process_aggregated_files\<close> (cutoff 100000) and not by
  \<^verbatim>\<open>process_single_file\<close> (cutoff 1000000). All other fields agree
  (\<open>batch_and_one_stream\<close>), and the aggregated row does not depend on the order of
  the files (\<open>aggregated_numeric_perm\<close>).
\<close>

theorem whales_cutoff_differs:
  "numeric (process_aggregated_files
      [''a.txt'' \<mapsto> [''filename read_id sequence_length_template'', ''FAK1_0.fast5 r1 500000''],
       ''b.txt'' \<mapsto> [''filename read_id sequence_length_template'', ''FAK1_1.fast5 r2 30000''],
       ''all.txt'' \<mapsto> [''filename read_id sequence_length_template'',
                        ''FAK1_0.fast5 r1 500000'', ''FAK1_1.fast5 r2 30000'']]
      [''a.txt'', ''b.txt''] 3000000000)
     = Inr (Some (500000, (530000, 1000000000), (530000, 3000000000), (530000, 3000000000),
                  (500000, 3000000000), (500000, 3000000000), (500000, 3000000000),
                  (500000, 3000000000), 1))
   \<and> numeric (process_single_file
      [''a.txt'' \<mapsto> [''filename read_id sequence_length_template'', ''FAK1_0.fast5 r1 500000''],
       ''b.txt'' \<mapsto> [''filename read_id sequence_length_template'', ''FAK1_1.fast5 r2 30000''],
       ''all.txt'' \<mapsto> [''filename read_id sequence_length_template'',
                        ''FAK1_0.fast5 r1 500000'', ''FAK1_1.fast5 r2 30000'']]
      ''all.txt'' 3000000000)
     = Inr (Some (500000, (530000, 1000000000), (530000, 3000000000), (530000, 3000000000),
                  (500000, 3000000000), (500000, 3000000000), (500000, 3000000000),
                  (500000, 3000000000), 0))"
  by code_simp

section \<open>The N50 loop\<close>

lemma n50_loop_first:
  assumes "k < length xs"
      and "rat_of_int (c + sum_list (take (Suc k) xs)) \<ge> target"
      and "\<forall>j<k. rat_of_int (c + sum_list (take (Suc j) xs)) < target"
    shows "n50_loop target c xs = xs ! k"
  using assms
proof (induction xs arbitrary: c k)
  case Nil
  then show ?case by simp
next
  case (Cons x xs)
  show ?case
  proof (cases k)
    case 0
    then show ?thesis using Cons.prems by simp
  next
    case (Suc k')
    have "rat_of_int (c + sum_list (take (Suc 0) (x # xs))) < target"
      using Cons.prems(3) Suc by blast
    then have nx: "\<not> rat_of_int (c + x) \<ge> target" by simp
    have "n50_loop target (c + x) xs = xs ! k'"
    proof (rule Cons.IH)
      show "k' < length xs" using Cons.prems(1) Suc by simp
      show "target \<le> rat_of_int (c + x + sum_list (take (Suc k') xs))"
        using Cons.prems(2) Suc by (simp add: add.assoc)
      show "\<forall>j<k'. rat_of_int (c + x + sum_list (take (Suc j) xs)) < target"
      proof (intro allI impI)
        fix j assume "j < k'"
        then have "Suc j < k" using Suc by simp
        then have "rat_of_int (c + sum_list (take (Suc (Suc j)) (x # xs))) < target"
          using Cons.prems(3) by blast
        then show "rat_of_int (c + x + sum_list (take (Suc j) xs)) < target"
          by (simp add: add.assoc)
      qed
    qed
    then show ?thesis using nx Suc by simp
  qed
qed

lemma n50_loop_none:
  assumes "\<forall>j<length xs. rat_of_int (c + sum_list (take (Suc j) xs)) < target"
  shows "n50_loop target c xs = 0"
  using assms
proof (induction xs arbitrary: c)
  case Nil
  then show ?case by simp
next
  case (Cons x xs)
  have "rat_of_int (c + sum_list (take (Suc 0) (x # xs))) < target"
    using Cons.prems by blast
  then have nx: "\<not> rat_of_int (c + x) \<ge> target" by simp
  have "n50_loop target (c + x) xs = 0"
  proof (rule Cons.IH, intro allI impI)
    fix j assume "j < length xs"
    then have "rat_of_int (c + sum_list (take (Suc (Suc j)) (x # xs))) < target"
      using Cons.prems by auto
    then show "rat_of_int (c + x + sum_list (take (Suc j) xs)) < target"
      by (simp add: add.assoc)
  qed
  then show ?case using nx by simp
qed

lemma bit_length_le_iff: "0 \<le> n \<Longrightarrow> bit_length n \<le> k \<longleftrightarrow> n < 2 ^ k"
proof (induction n arbitrary: k rule: bit_length.induct)
  case (1 n)
  show ?case
  proof (cases "n \<le> 0")
    case True
    then have "n = 0" using "1.prems" by simp
    then show ?thesis by (simp add: bit_length.simps)
  next
    case False
    then have b: "bit_length n = Suc (bit_length (n div 2))"
      by (simp add: bit_length.simps)
    show ?thesis
    proof (cases k)
      case 0
      then show ?thesis using b False by simp
    next
      case (Suc k')
      have "bit_length (n div 2) \<le> k' \<longleftrightarrow> n div 2 < 2 ^ k'"
        using "1.IH" [OF False] "1.prems" by simp
      moreover have "n div 2 < 2 ^ k' \<longleftrightarrow> n < 2 * 2 ^ k'"
        by presburger
      ultimately show ?thesis using b Suc by simp
    qed
  qed
qed

lemma float_of_int_small: "\<bar>n\<bar> < 2 ^ 53 \<Longrightarrow> float_of_int n = n"
  using bit_length_le_iff [of "\<bar>n\<bar>" 53] by (simp add: float_of_int_def Let_def)

lemma float_of_int_exact: "\<bar>n\<bar> \<le> 2 ^ 53 \<Longrightarrow> float_of_int n = n"
proof -
  assume a: "\<bar>n\<bar> \<le> 2 ^ 53"
  have p: "float_of_int (2 ^ 53) = 2 ^ 53" by code_simp
  have m: "float_of_int (- (2 ^ 53)) = - (2 ^ 53)" by code_simp
  consider "\<bar>n\<bar> < 2 ^ 53" | "n = 2 ^ 53" | "n = - (2 ^ 53)" using a by linarith
  then show ?thesis
    using p m float_of_int_small by cases auto
qed

lemma target_of_exact: "\<bar>t\<bar> \<le> 2 ^ 53 \<Longrightarrow> target_of t = rat_of_int t / 2"
  by (simp add: target_of_def float_of_int_exact)

lemma first_reaching_least:
  assumes "j < length xs" and "rat_of_int (sum_list (take (Suc j) xs)) \<ge> target"
  shows "\<exists>k. first_reaching xs target k"
proof -
  let ?P = "\<lambda>k. k < length xs \<and> rat_of_int (sum_list (take (Suc k) xs)) \<ge> target"
  have "?P j" using assms by simp
  then have l: "?P (LEAST k. ?P k)" by (rule LeastI)
  have "\<forall>i<(LEAST k. ?P k). \<not> ?P i" using not_less_Least by blast
  moreover have "\<forall>i<(LEAST k. ?P k). i < length xs" using l by auto
  ultimately have "first_reaching xs target (LEAST k. ?P k)"
    using l unfolding first_reaching_def by (auto simp add: not_le)
  then show ?thesis ..
qed

lemma n50_loop_contract:
  assumes "\<bar>sum_list ls\<bar> \<le> 2 ^ 53"
  shows "n50_contract ls (n50_loop (target_of (sum_list ls)) 0 (rev (sort ls)))"
proof -
  let ?xs = "rev (sort ls)"
  let ?t = "rat_of_int (sum_list ls) / 2"
  let ?n = "n50_loop ?t 0 ?xs"
  have t: "target_of (sum_list ls) = ?t"
    using assms by (rule target_of_exact)
  have s: "sum_list ?xs = sum_list ls"
    by (metis mset_rev mset_sort sum_mset_sum_list)
  have a: "?n = ?xs ! k" if "first_reaching ?xs ?t k" for k
    using that n50_loop_first [of k ?xs ?t 0] by (simp add: first_reaching_def)
  have b: "\<exists>k. first_reaching ?xs ?t k" if "ls \<noteq> []" and "\<forall>x\<in>set ls. 0 \<le> x"
  proof (rule first_reaching_least [of "length ?xs - 1"])
    show "length ?xs - 1 < length ?xs" using that(1) by simp
    have "0 \<le> sum_list ls" using that(2) by (simp add: sum_list_nonneg)
    then have "?t \<le> rat_of_int (sum_list ls)" by simp
    moreover have "take (Suc (length ?xs - 1)) ?xs = ?xs" by simp
    ultimately show "?t \<le> rat_of_int (sum_list (take (Suc (length ?xs - 1)) ?xs))"
      using s by simp
  qed
  have c: "?n = 0" if "\<forall>k. \<not> first_reaching ?xs ?t k"
  proof (rule n50_loop_none, intro allI impI)
    fix j assume "j < length ?xs"
    then have "\<not> rat_of_int (sum_list (take (Suc j) ?xs)) \<ge> ?t"
      using that first_reaching_least by blast
    then show "rat_of_int (0 + sum_list (take (Suc j) ?xs)) < ?t" by simp
  qed
  show ?thesis
    unfolding n50_contract_def Let_def t using a b c by blast
qed

text \<open>
  Where the absolute values of the lengths sum to \<open>2 ^ 53\<close> at most, no int64 sum
  wraps and every running sum is its own double: the loop of the quality-bucket script
  is the loop of the length-bucket script.
\<close>

lemma wrap64_exact: "\<bar>x\<bar> \<le> 2 ^ 53 \<Longrightarrow> wrap64 x = x"
  by (simp add: wrap64_def)

lemma rna_n50_loop_exact:
  "\<bar>c\<bar> + sum_list (map abs xs) \<le> 2 ^ 53 \<Longrightarrow> rna_n50_loop t c xs = n50_loop t c xs"
proof (induction xs arbitrary: c)
  case Nil
  then show ?case by simp
next
  case (Cons x xs)
  have n: "0 \<le> sum_list (map abs xs)"
    by (rule sum_list_nonneg) auto
  have "\<bar>c + x\<bar> \<le> 2 ^ 53"
    using Cons.prems n by simp
  then have e: "float_of_int (c + x) = c + x"
    by (rule float_of_int_exact)
  have "\<bar>c + x\<bar> + sum_list (map abs xs) \<le> 2 ^ 53"
    using Cons.prems by simp
  then have "rna_n50_loop t (c + x) xs = n50_loop t (c + x) xs"
    by (rule Cons.IH)
  then show ?case using e by simp
qed

lemma sum_abs_rev_sort: "sum_list (map abs (rev (sort ls))) = sum_list (map abs (ls :: int list))"
  by (metis mset_map mset_rev mset_sort sum_mset_sum_list)

lemma abs_sum_list_le: "\<bar>sum_list ls\<bar> \<le> sum_list (map abs (ls :: int list))"
  by (induction ls) simp_all

lemma summary_read_N50:
  "summary w a b ls t s = Inr (Some r) \<Longrightarrow> read_N50 r = n50_loop (target_of t) 0 (rev (sort ls))"
  by (auto simp add: summary_def Let_def split: if_splits)

lemma process_rna_file_N50:
  assumes "rfs g = Some (Frame df)" and "process_rna_file rfs g = Inr (Some q)"
      and "sum_list (map abs (map snd (records df))) \<le> 2 ^ 53"
  shows "N50 q = n50_loop (target_of (sum_list (map snd (records df)))) 0
                   (rev (sort (map snd (records df))))"
proof -
  let ?ls = "map snd (records df)"
  have w: "wrap64 (sum_list ?ls) = sum_list ?ls"
    using abs_sum_list_le [of ?ls] assms(3) by (intro wrap64_exact) simp
  have "N50 q = rna_n50_loop (target_of (wrap64 (sum_list ?ls))) 0 (rev (sort ?ls))"
    using assms(1,2)
    by (auto simp add: process_rna_file_def drop_columns_def Let_def split: if_splits)
  moreover have "rna_n50_loop (target_of (sum_list ?ls)) 0 (rev (sort ?ls))
                   = n50_loop (target_of (sum_list ?ls)) 0 (rev (sort ?ls))"
    using assms(3) by (intro rna_n50_loop_exact) (simp add: sum_abs_rev_sort)
  ultimately show ?thesis using w by simp
qed

lemma process_single_file_summary:
  assumes "process_single_file fs f s = Inr (Some r)"
  shows "\<exists>b. summary 1000000 f b (file_lengths fs f) (sum_list (file_lengths fs f)) s
               = Inr (Some r)"
proof (cases "fs f")
  case None
  then show ?thesis using assms by (simp add: process_single_file_eq)
next
  case (Some lines)
  show ?thesis
  proof (cases "index (split (strip (fst (readline lines)))) ''sequence_length_template''")
    case None
    then show ?thesis using assms Some by (simp add: process_single_file_eq)
  next
    case (Some i)
    then show ?thesis using assms \<open>fs f = Some lines\<close>
      by (simp add: process_single_file_eq) blast
  qed
qed

text \<open>
  Claim C2, as amended. For lengths whose total is \<open>2 ^ 53\<close> at most in absolute
  value, the N50 of a row is the value, in the lengths sorted in descending order, at
  the first position where the running sum reaches or exceeds half the total; one
  exists whenever no length is negative, and the N50 is 0 where there is none. This
  holds for the per-file row and the aggregated row of the length-bucket script, and
  for the row of the quality-bucket script where the absolute values of the lengths
  sum to \<open>2 ^ 53\<close> at most. The closed conjuncts are the examples of the
  specification, on each of the three functions.
\<close>

theorem n50_first_position:
  "(process_single_file fs f s = Inr (Some r) \<and> \<bar>sum_list (file_lengths fs f)\<bar> \<le> 2 ^ 53 \<longrightarrow>
      n50_contract (file_lengths fs f) (read_N50 r))
   \<and> (process_aggregated_files fs files s = Inr (Some r')
        \<and> \<bar>sum_list (concat (map (file_lengths fs) files))\<bar> \<le> 2 ^ 53 \<longrightarrow>
      n50_contract (concat (map (file_lengths fs) files)) (read_N50 r'))
   \<and> (rfs g = Some (Frame df) \<and> process_rna_file rfs g = Inr (Some q)
        \<and> sum_list (map abs (map snd (records df))) \<le> 2 ^ 53 \<longrightarrow>
      n50_contract (map snd (records df)) (N50 q))
   \<and> map_sum id (map_option read_N50)
        (process_single_file
           [''s.txt'' \<mapsto> [''read_id sequence_length_template'',
                           ''r1 100'', ''r2 100'', ''r3 100'', ''r4 100'']]
           ''s.txt'' 3000000000) = Inr (Some 100)
   \<and> map_sum id (map_option read_N50)
        (process_single_file
           [''s.txt'' \<mapsto> [''read_id sequence_length_template'',
                           ''r1 1000'', ''r2 500'', ''r3 300'', ''r4 200'']]
           ''s.txt'' 3000000000) = Inr (Some 1000)
   \<and> map_sum id (map_option read_N50)
        (process_aggregated_files
           [''a.txt'' \<mapsto> [''read_id sequence_length_template'', ''r1 300'', ''r2 1000''],
            ''b.txt'' \<mapsto> [''read_id sequence_length_template'', ''r3 200'', ''r4 500'']]
           [''a.txt'', ''b.txt''] 3000000000) = Inr (Some 1000)
   \<and> map_sum id (map_option N50)
        (process_rna_file
           [''s.txt'' \<mapsto> Frame \<lparr>columns = [''read_id'', ''mean_qscore_template'',
                                              ''sequence_length_template''],
                                   records = [(7, 100), (12, 100), (9, 100), (11, 100)]\<rparr>]
           ''s.txt'') = Inr (Some 100)
   \<and> map_sum id (map_option N50)
        (process_rna_file
           [''s.txt'' \<mapsto> Frame \<lparr>columns = [''read_id'', ''mean_qscore_template'',
                                              ''sequence_length_template''],
                                   records = [(7, 1000), (12, 500), (9, 300), (11, 200)]\<rparr>]
           ''s.txt'') = Inr (Some 1000)"
proof -
  have a: "n50_contract (file_lengths fs f) (read_N50 r)"
    if h: "process_single_file fs f s = Inr (Some r)"
      and t: "\<bar>sum_list (file_lengths fs f)\<bar> \<le> 2 ^ 53"
  proof -
    obtain b where "summary 1000000 f b (file_lengths fs f) (sum_list (file_lengths fs f)) s
                      = Inr (Some r)"
      using process_single_file_summary [OF h] by blast
    then show ?thesis
      using summary_read_N50 n50_loop_contract [OF t] by simp
  qed
  have b: "n50_contract (concat (map (file_lengths fs) files)) (read_N50 r')"
    if "process_aggregated_files fs files s = Inr (Some r')"
      and t: "\<bar>sum_list (concat (map (file_lengths fs) files))\<bar> \<le> 2 ^ 53"
    using that(1) summary_read_N50 n50_loop_contract [OF t]
    by (simp add: process_aggregated_files_eq)
  have c: "n50_contract (map snd (records df)) (N50 q)"
    if h: "rfs g = Some (Frame df)" "process_rna_file rfs g = Inr (Some q)"
      and t: "sum_list (map abs (map snd (records df))) \<le> 2 ^ 53"
  proof -
    have "\<bar>sum_list (map snd (records df))\<bar> \<le> 2 ^ 53"
      using abs_sum_list_le [of "map snd (records df)"] t by simp
    then show ?thesis
      using process_rna_file_N50 [OF h t] n50_loop_contract by simp
  qed
  have d: "map_sum id (map_option read_N50)
        (process_single_file
           [''s.txt'' \<mapsto> [''read_id sequence_length_template'',
                           ''r1 100'', ''r2 100'', ''r3 100'', ''r4 100'']]
           ''s.txt'' 3000000000) = Inr (Some 100)"
    by code_simp
  have e: "map_sum id (map_option read_N50)
        (process_single_file
           [''s.txt'' \<mapsto> [''read_id sequence_length_template'',
                           ''r1 1000'', ''r2 500'', ''r3 300'', ''r4 200'']]
           ''s.txt'' 3000000000) = Inr (Some 1000)"
    by code_simp
  have f: "map_sum id (map_option read_N50)
        (process_aggregated_files
           [''a.txt'' \<mapsto> [''read_id sequence_length_template'', ''r1 300'', ''r2 1000''],
            ''b.txt'' \<mapsto> [''read_id sequence_length_template'', ''r3 200'', ''r4 500'']]
           [''a.txt'', ''b.txt''] 3000000000) = Inr (Some 1000)"
    by code_simp
  have g: "map_sum id (map_option N50)
        (process_rna_file
           [''s.txt'' \<mapsto> Frame \<lparr>columns = [''read_id'', ''mean_qscore_template'',
                                              ''sequence_length_template''],
                                   records = [(7, 100), (12, 100), (9, 100), (11, 100)]\<rparr>]
           ''s.txt'') = Inr (Some 100)"
    by code_simp
  have i: "map_sum id (map_option N50)
        (process_rna_file
           [''s.txt'' \<mapsto> Frame \<lparr>columns = [''read_id'', ''mean_qscore_template'',
                                              ''sequence_length_template''],
                                   records = [(7, 1000), (12, 500), (9, 300), (11, 200)]\<rparr>]
           ''s.txt'') = Inr (Some 1000)"
    by code_simp
  show ?thesis
    using a b c d e f g i by blast
qed

theorem n50_first_position_witness:
  "n50_contract [1000, 500, 300, 200] 1000
   \<and> n50_contract [300, 1000, 200, 500] 1000
   \<and> n50_contract [100, 100, 100, 100] 100
   \<and> first_reaching [1000, 500, 300, 200] (rat_of_int 2000 / 2) 0
   \<and> first_reaching [100, 100, 100, 100] (rat_of_int 400 / 2) 1"
proof -
  let ?fs = "[''s.txt'' \<mapsto> [''read_id sequence_length_template'',
                           ''r1 1000'', ''r2 500'', ''r3 300'', ''r4 200'']]"
  let ?r = "\<lparr>File = ''s.txt'', flowcell_id = [], read_N50 = 1000,
             Gb = (2000, 1000000000), coverage = (2000, 3000000000),
             kb20 = (0, 3000000000), kb40 = (0, 3000000000), kb60 = (0, 3000000000),
             kb80 = (0, 3000000000), kb100 = (0, 3000000000), whales = 0\<rparr>"
  let ?gs = "[''a.txt'' \<mapsto> [''read_id sequence_length_template'', ''r1 300'', ''r2 1000''],
              ''b.txt'' \<mapsto> [''read_id sequence_length_template'', ''r3 200'', ''r4 500'']]"
  let ?r' = "\<lparr>File = ''a.txt,b.txt'', flowcell_id = [], read_N50 = 1000,
             Gb = (2000, 1000000000), coverage = (2000, 3000000000),
             kb20 = (0, 3000000000), kb40 = (0, 3000000000), kb60 = (0, 3000000000),
             kb80 = (0, 3000000000), kb100 = (0, 3000000000), whales = 0\<rparr>"
  let ?df = "\<lparr>columns = [''read_id'', ''mean_qscore_template'', ''sequence_length_template''],
              records = [(7, 100), (12, 100), (9, 100), (11, 100)]\<rparr>"
  let ?rfs = "[''q.txt'' \<mapsto> Frame ?df]"
  let ?q = "\<lparr>Sample = ''q.txt'', total_Gbp = (400, 1000000000), N50 = 100,
             total_reads_M = (4, 1000000), q5_reads_M = (4, 1000000),
             q10_reads_M = (2, 1000000), q15_reads_M = (0, 1000000),
             q20_reads_M = (0, 1000000), q25_reads_M = (0, 1000000)\<rparr>"
  have p1: "process_single_file ?fs ''s.txt'' 3000000000 = Inr (Some ?r)"
    by code_simp
  have l1: "file_lengths ?fs ''s.txt'' = [1000, 500, 300, 200]"
    by code_simp
  have p2: "process_aggregated_files ?gs [''a.txt'', ''b.txt''] 3000000000 = Inr (Some ?r')"
    by code_simp
  have l2: "concat (map (file_lengths ?gs) [''a.txt'', ''b.txt'']) = [300, 1000, 200, 500]"
    by code_simp
  have p3: "process_rna_file ?rfs ''q.txt'' = Inr (Some ?q)"
    by code_simp
  have f3: "?rfs ''q.txt'' = Some (Frame ?df)"
    by simp
  have t1: "\<bar>sum_list (file_lengths ?fs ''s.txt'')\<bar> \<le> 2 ^ 53"
    unfolding l1 by simp
  have t2: "\<bar>sum_list (concat (map (file_lengths ?gs) [''a.txt'', ''b.txt'']))\<bar> \<le> 2 ^ 53"
    unfolding l2 by simp
  have t3: "sum_list (map abs (map snd (records ?df))) \<le> 2 ^ 53"
    by simp
  have "n50_contract (file_lengths ?fs ''s.txt'') (read_N50 ?r)"
    using n50_first_position [where fs = ?fs and f = "''s.txt''" and s = 3000000000
            and r = ?r] p1 t1 by blast
  then have w1: "n50_contract [1000, 500, 300, 200] 1000"
    unfolding l1 by simp
  have "n50_contract (concat (map (file_lengths ?gs) [''a.txt'', ''b.txt''])) (read_N50 ?r')"
    using n50_first_position [where fs = ?gs and files = "[''a.txt'', ''b.txt'']"
            and s = 3000000000 and r' = ?r'] p2 t2 by blast
  then have w2: "n50_contract [300, 1000, 200, 500] 1000"
    unfolding l2 by simp
  have "n50_contract (map snd (records ?df)) (N50 ?q)"
    using n50_first_position [where rfs = ?rfs and g = "''q.txt''" and df = ?df and q = ?q]
          p3 f3 t3 by blast
  then have w3: "n50_contract [100, 100, 100, 100] 100"
    by simp
  have f1: "first_reaching [1000, 500, 300, 200] (rat_of_int 2000 / 2) 0"
    by (simp add: first_reaching_def)
  have f2: "first_reaching [100, 100, 100, 100] (rat_of_int 400 / 2) 1"
    by (simp add: first_reaching_def)
  show ?thesis
    using w1 w2 w3 f1 f2 by simp
qed

text \<open>
  Claim C2 as stated fails on the lengths \<open>2 ^ 53\<close>, \<open>2 ^ 53 - 1\<close> and 3. Their
  total \<open>2 ^ 54 + 2\<close> is not a double: \<^verbatim>\<open>total_bases / 2.0\<close> is \<open>2 ^ 53\<close>,
  which the first length reaches, so the N50 is \<open>2 ^ 53\<close>. Half the total is
  \<open>2 ^ 53 + 1\<close>, which the running sum reaches at the second length only.
\<close>

theorem n50_target_is_a_double:
  "map_sum id (map_option read_N50)
     (process_single_file
        [''s.txt'' \<mapsto> [''read_id sequence_length_template'', ''r1 9007199254740992'',
                         ''r2 9007199254740991'', ''r3 3'']]
        ''s.txt'' 3000000000) = Inr (Some 9007199254740992)
   \<and> file_lengths
        [''s.txt'' \<mapsto> [''read_id sequence_length_template'', ''r1 9007199254740992'',
                         ''r2 9007199254740991'', ''r3 3'']]
        ''s.txt'' = [9007199254740992, 9007199254740991, 3]
   \<and> first_reaching (rev (sort [9007199254740992, 9007199254740991, 3]))
        (rat_of_int (sum_list [9007199254740992, 9007199254740991, 3]) / 2) 1
   \<and> rev (sort [9007199254740992, 9007199254740991, 3 :: int]) ! 1 = 9007199254740991
   \<and> \<not> n50_contract [9007199254740992, 9007199254740991, 3] 9007199254740992"
proof -
  have a: "map_sum id (map_option read_N50)
     (process_single_file
        [''s.txt'' \<mapsto> [''read_id sequence_length_template'', ''r1 9007199254740992'',
                         ''r2 9007199254740991'', ''r3 3'']]
        ''s.txt'' 3000000000) = Inr (Some 9007199254740992)"
    by code_simp
  have b: "file_lengths
        [''s.txt'' \<mapsto> [''read_id sequence_length_template'', ''r1 9007199254740992'',
                         ''r2 9007199254740991'', ''r3 3'']]
        ''s.txt'' = [9007199254740992, 9007199254740991, 3]"
    by code_simp
  have s: "rev (sort [9007199254740992, 9007199254740991, 3 :: int])
             = [9007199254740992, 9007199254740991, 3]"
    by simp
  have c: "first_reaching (rev (sort [9007199254740992, 9007199254740991, 3]))
        (rat_of_int (sum_list [9007199254740992, 9007199254740991, 3]) / 2) 1"
    unfolding s by (simp add: first_reaching_def)
  have d: "rev (sort [9007199254740992, 9007199254740991, 3 :: int]) ! 1 = 9007199254740991"
    unfolding s by simp
  have e: "\<not> n50_contract [9007199254740992, 9007199254740991, 3] 9007199254740992"
  proof
    assume "n50_contract [9007199254740992, 9007199254740991, 3] 9007199254740992"
    then have "(9007199254740992 :: int)
                 = rev (sort [9007199254740992, 9007199254740991, 3]) ! 1"
      using c unfolding n50_contract_def Let_def by blast
    then show False using d by simp
  qed
  show ?thesis using a b c d e by blast
qed

section \<open>Units without records, units without the length column\<close>

lemma summary_no_lengths: "summary w a b [] t s = Inr None"
  by (simp add: summary_def)

lemma summary_some_lengths:
  "summary w a b ls t s = Inr (Some r) \<Longrightarrow> ls \<noteq> []"
  by (auto simp add: summary_def)

text \<open>
  The length-bucket script returns no row for a unit without accepted records, whatever
  the genome size, zero included: the test comes before every division.
\<close>

lemma no_records_single:
  "file_lengths fs f = [] \<Longrightarrow> process_single_file fs f s = Inr None"
  by (simp add: process_single_file_eq summary_no_lengths split: option.splits)

lemma no_records_aggregated:
  "concat (map (file_lengths fs) files) = [] \<Longrightarrow> process_aggregated_files fs files s = Inr None"
  unfolding process_aggregated_files_eq by (simp only: summary_no_lengths)

lemma rna_loop_total_reads:
  "rna_loop fs files t = Inr t' \<Longrightarrow>
     total_reads t' = total_reads t
        + sum_list (map (\<lambda>f. case fs f of Some (Frame df) \<Rightarrow> length (records df) | _ \<Rightarrow> 0) files)"
proof (induction files arbitrary: t)
  case Nil
  then show ?case by simp
next
  case (Cons f files)
  show ?case
  proof (cases "fs f")
    case None
    then show ?thesis using Cons by simp
  next
    case (Some c)
    show ?thesis
    proof (cases c)
      case Unreadable
      then show ?thesis using Cons Some by simp
    next
      case (Frame df)
      then show ?thesis
        using Cons.prems Some Cons.IH
        by (auto simp add: Let_def drop_columns_def split: if_splits)
    qed
  qed
qed

text \<open>So does the aggregated mode of the quality-bucket script.\<close>

lemma no_records_rna_aggregated:
  assumes "\<forall>f\<in>set files. \<forall>df. fs f = Some (Frame df) \<longrightarrow> records df = []"
  shows "process_aggregated_rna_files fs files \<noteq> Inr (Some q)"
proof (cases "rna_loop fs files
         \<lparr>total_reads = 0, total_bases = 0, count_q5 = 0, count_q10 = 0, count_q15 = 0,
          count_q20 = 0, count_q25 = 0, rna_read_lengths = []\<rparr>")
  case (Inl e)
  then show ?thesis by (simp add: process_aggregated_rna_files_def)
next
  case (Inr t)
  have "sum_list (map (\<lambda>f. case fs f of Some (Frame df) \<Rightarrow> length (records df) | _ \<Rightarrow> 0) files) = 0"
    using assms by (induction files) (auto split: option.splits csv.splits)
  then have "total_reads t = 0"
    using rna_loop_total_reads [OF Inr] by simp
  then show ?thesis using Inr by (simp add: process_aggregated_rna_files_def)
qed

text \<open>
  Claim C3. A unit without records gives no row in the length-bucket script
  (\<open>no_records_single\<close>, \<open>no_records_aggregated\<close>) and in the aggregated mode of the
  quality-bucket script (\<open>no_records_rna_aggregated\<close>). \<^verbatim>\<open>process_rna_file\<close> has no
  such test: for a file that holds its header line and no row it returns a row of
  zeros, which directory mode writes, where the aggregated mode returns nothing.
\<close>

theorem rna_file_without_records:
  "process_rna_file
     [''e.txt'' \<mapsto> Frame \<lparr>columns = [''read_id'', ''mean_qscore_template'',
                                       ''sequence_length_template''], records = []\<rparr>]
     ''e.txt''
     = Inr (Some \<lparr>Sample = ''e.txt'', total_Gbp = (0, 1000000000), N50 = 0,
                  total_reads_M = (0, 1000000), q5_reads_M = (0, 1000000),
                  q10_reads_M = (0, 1000000), q15_reads_M = (0, 1000000),
                  q20_reads_M = (0, 1000000), q25_reads_M = (0, 1000000)\<rparr>)
   \<and> rna_main_directory
     [''e.txt'' \<mapsto> Frame \<lparr>columns = [''read_id'', ''mean_qscore_template'',
                                       ''sequence_length_template''], records = []\<rparr>]
     [''e.txt''] ''yes'' ''fast''
     = Inr [\<lparr>Sample = ''e.txt_fast'', total_Gbp = (0, 1000000000), N50 = 0,
             total_reads_M = (0, 1000000), q5_reads_M = (0, 1000000),
             q10_reads_M = (0, 1000000), q15_reads_M = (0, 1000000),
             q20_reads_M = (0, 1000000), q25_reads_M = (0, 1000000)\<rparr>]
   \<and> process_aggregated_rna_files
     [''e.txt'' \<mapsto> Frame \<lparr>columns = [''read_id'', ''mean_qscore_template'',
                                       ''sequence_length_template''], records = []\<rparr>]
     [''e.txt''] = Inr None"
  by code_simp

section \<open>Files without the length column\<close>

lemma no_column_lengths:
  assumes "fs f = Some lines"
      and "index (split (strip (fst (readline lines)))) ''sequence_length_template'' = None"
  shows "file_lengths fs f = []" and "file_ids fs f = {}"
  using assms by (cases "readline lines"; simp add: file_lengths_def file_ids_def)+

lemma main_directory_skip:
  assumes "process_single_file fs f s = Inr None"
  shows "main_directory fs (pre @ f # post) s sn ap = main_directory fs (pre @ post) s sn ap"
  using assms by (induction pre) (simp_all split: sum.splits option.splits prod.splits)

lemma summary_labels:
  "summary w a b ls t s = map_sum id (map_option (\<lambda>r. r\<lparr>File := a\<rparr>)) (summary w a' b ls t s)"
  by (simp add: summary_def Let_def)

lemma numeric_File_update:
  "numeric (map_sum id (map_option (\<lambda>r. r\<lparr>File := x\<rparr>)) y) = numeric y"
proof (cases y)
  case (Inl e)
  then show ?thesis by (simp add: numeric_def)
next
  case (Inr b)
  then show ?thesis by (cases b) (simp_all add: numeric_def numbers_def)
qed

text \<open>
  Claim C4, as amended. In the length-bucket script a file whose header lacks the
  length column gives no row in directory mode, and the files after it are processed
  as if it were not there. In aggregated mode it adds no read, no base and no identifier
  to the batch: the row is that of the batch without the file, but for the field
  \<^verbatim>\<open>File\<close>, which lists every file that could be opened, this one included.
\<close>

theorem missing_length_column:
  assumes "fs f = Some lines"
      and "index (split (strip (fst (readline lines)))) ''sequence_length_template'' = None"
  shows "process_single_file fs f s = Inr None
       \<and> main_directory fs (pre @ f # post) s shortname append_str
           = main_directory fs (pre @ post) s shortname append_str
       \<and> process_aggregated_files fs (pre @ f # post) s
           = map_sum id
               (map_option (\<lambda>r. r\<lparr>File := join '','' (filter (\<lambda>g. fs g \<noteq> None) (pre @ f # post))\<rparr>))
               (process_aggregated_files fs (pre @ post) s)"
proof -
  have a: "process_single_file fs f s = Inr None"
    using assms by (simp add: process_single_file_eq)
  have b: "main_directory fs (pre @ f # post) s shortname append_str
             = main_directory fs (pre @ post) s shortname append_str"
    using a by (rule main_directory_skip)
  have l: "concat (map (file_lengths fs) (pre @ f # post)) = concat (map (file_lengths fs) (pre @ post))"
    using no_column_lengths(1) [of fs f lines] assms by simp
  have i: "(\<Union>g\<in>set (pre @ f # post). file_ids fs g) = (\<Union>g\<in>set (pre @ post). file_ids fs g)"
    using no_column_lengths(2) [of fs f lines] assms by auto
  have c: "process_aggregated_files fs (pre @ f # post) s
           = map_sum id
               (map_option (\<lambda>r. r\<lparr>File := join '','' (filter (\<lambda>g. fs g \<noteq> None) (pre @ f # post))\<rparr>))
               (process_aggregated_files fs (pre @ post) s)"
    unfolding process_aggregated_files_eq l i by (rule summary_labels)
  show ?thesis using a b c by blast
qed

theorem missing_length_column_witness:
  "process_single_file
     [''bad.txt'' \<mapsto> [''read_id length'', ''r1 100''],
      ''good.txt'' \<mapsto> [''read_id sequence_length_template'', ''r2 200'']]
     ''bad.txt'' 3000000000 = Inr None
   \<and> main_directory
     [''bad.txt'' \<mapsto> [''read_id length'', ''r1 100''],
      ''good.txt'' \<mapsto> [''read_id sequence_length_template'', ''r2 200'']]
     [''bad.txt'', ''good.txt''] 3000000000 ''yes'' ''fast''
     = main_directory
     [''bad.txt'' \<mapsto> [''read_id length'', ''r1 100''],
      ''good.txt'' \<mapsto> [''read_id sequence_length_template'', ''r2 200'']]
     [''good.txt''] 3000000000 ''yes'' ''fast''
   \<and> numeric (process_aggregated_files
     [''bad.txt'' \<mapsto> [''read_id length'', ''r1 100''],
      ''good.txt'' \<mapsto> [''read_id sequence_length_template'', ''r2 200'']]
     [''bad.txt'', ''good.txt''] 3000000000)
     = numeric (process_aggregated_files
     [''bad.txt'' \<mapsto> [''read_id length'', ''r1 100''],
      ''good.txt'' \<mapsto> [''read_id sequence_length_template'', ''r2 200'']]
     [''good.txt''] 3000000000)"
proof -
  let ?fs = "[''bad.txt'' \<mapsto> [''read_id length'', ''r1 100''],
              ''good.txt'' \<mapsto> [''read_id sequence_length_template'', ''r2 200'']]"
  have a: "?fs ''bad.txt'' = Some [''read_id length'', ''r1 100'']" by simp
  have b: "index (split (strip (fst (readline [''read_id length'', ''r1 100'']))))
             ''sequence_length_template'' = None"
    by code_simp
  have n: "numeric (map_sum id (map_option (\<lambda>r. r\<lparr>File := x\<rparr>)) y) = numeric y" for x y
    by (rule numeric_File_update)
  show ?thesis
    using missing_length_column [of ?fs "''bad.txt''" "[''read_id length'', ''r1 100'']"
            3000000000 "[]" "[''good.txt'']" "''yes''" "''fast''"] a b n
    by simp
qed

theorem missing_length_column_file_listed:
  "map_sum id (map_option File)
     (process_aggregated_files
        [''bad.txt'' \<mapsto> [''read_id length'', ''r1 100''],
         ''good.txt'' \<mapsto> [''read_id sequence_length_template'', ''r2 200'']]
        [''bad.txt'', ''good.txt''] 3000000000) = Inr (Some ''bad.txt,good.txt'')
   \<and> map_sum id (map_option File)
     (process_aggregated_files
        [''bad.txt'' \<mapsto> [''read_id length'', ''r1 100''],
         ''good.txt'' \<mapsto> [''read_id sequence_length_template'', ''r2 200'']]
        [''good.txt''] 3000000000) = Inr (Some ''good.txt'')"
  by code_simp

text \<open>
  The quality-bucket script has no test for the column: the subscript raises a KeyError
  that nothing catches, and the run ends without a row for any file.
\<close>

lemma rna_missing_column:
  assumes "fs f = Some (Frame df)" and "''sequence_length_template'' \<notin> set (columns df)"
  shows "\<exists>c. process_rna_file fs f = Inl (KeyError c)"
  using assms by (simp add: process_rna_file_def drop_columns_def Let_def)

lemma rna_missing_column_ends_run:
  "rna_main_directory
     [''bad.txt'' \<mapsto> Frame \<lparr>columns = [''read_id'', ''mean_qscore_template'', ''length''],
                              records = [(7, 100)]\<rparr>,
      ''good.txt'' \<mapsto> Frame \<lparr>columns = [''read_id'', ''mean_qscore_template'',
                                          ''sequence_length_template''],
                               records = [(7, 100)]\<rparr>]
     [''good.txt'', ''bad.txt''] ''yes'' ''fast'' = Inl (KeyError ''sequence_length_template'')"
  by code_simp

section \<open>Rows the loops drop\<close>

lemma map_filter_filter_keep:
  assumes "\<forall>l\<in>set rows. \<not> keep l \<longrightarrow> h l = None"
  shows "List.map_filter h (filter keep rows) = List.map_filter h rows"
  using assms by (induction rows) (auto simp add: List.map_filter_simps split: option.splits)

lemma accepted_None_iff:
  "accepted i l = None \<longleftrightarrow>
     (sublist ''filename'' l \<and> sublist ''read_id'' l)
     \<or> length (split (strip l)) \<le> i
     \<or> py_int (split (strip l) ! i) = None"
  by (auto simp add: accepted_def candidate_def)

lemma file_lengths_upd_other:
  "g \<noteq> f \<Longrightarrow> file_lengths (fs(f \<mapsto> x)) g = file_lengths fs g"
  by (simp add: file_lengths_def)

text \<open>
  Claim C5. From the rows of a stream, remove any rows that the loop drops: rows holding
  both header markers, rows with no field at the index of the length column, and rows
  whose field there is not an integer. Every numeric field of the row returned for the
  stream is unchanged, and so is every numeric field of an aggregated row of a batch
  holding the stream.
\<close>

theorem dropped_rows_removed:
  assumes "fs f = Some (first # rows)"
      and "index (split (strip first)) ''sequence_length_template'' = Some i"
      and "\<forall>l\<in>set rows. \<not> keep l \<longrightarrow>
             (sublist ''filename'' l \<and> sublist ''read_id'' l)
             \<or> length (split (strip l)) \<le> i
             \<or> py_int (split (strip l) ! i) = None"
  shows "numeric (process_single_file (fs(f \<mapsto> first # filter keep rows)) f s)
           = numeric (process_single_file fs f s)
       \<and> numeric (process_aggregated_files (fs(f \<mapsto> first # filter keep rows)) files s)
           = numeric (process_aggregated_files fs files s)"
proof -
  let ?fs' = "fs(f \<mapsto> first # filter keep rows)"
  have "List.map_filter (accepted i) (filter keep rows) = List.map_filter (accepted i) rows"
    using assms(3) by (intro map_filter_filter_keep) (simp add: accepted_None_iff)
  then have l: "file_lengths ?fs' f = file_lengths fs f"
    using assms(1,2) by (simp add: file_lengths_def readline_def)
  have "file_lengths ?fs' g = file_lengths fs g" for g
    using l file_lengths_upd_other by (cases "g = f") simp_all
  then have c: "map (file_lengths ?fs') files = map (file_lengths fs) files"
    by simp
  have a: "numeric (process_single_file ?fs' f s) = numeric (process_single_file fs f s)"
    using assms(1,2) l numeric_summary_labels
    by (simp add: process_single_file_eq readline_def)
  have b: "numeric (process_aggregated_files ?fs' files s)
             = numeric (process_aggregated_files fs files s)"
    unfolding process_aggregated_files_eq c by (rule numeric_summary_labels)
  show ?thesis using a b by simp
qed

theorem dropped_rows_removed_witness:
  "numeric (process_single_file
      [''a.txt'' \<mapsto> [''filename read_id sequence_length_template'',
                       ''FAK1_0.fast5 r1 1000'', ''FAK1_3.fast5 r4 500'']]
      ''a.txt'' 3000000000)
   = numeric (process_single_file
      [''a.txt'' \<mapsto> [''filename read_id sequence_length_template'',
                       ''FAK1_0.fast5 r1 1000'',
                       ''filename read_id sequence_length_template'',
                       ''FAK1_1.fast5 r2'',
                       ''FAK1_2.fast5 r3 abc'',
                       ''FAK1_3.fast5 r4 500'']]
      ''a.txt'' 3000000000)"
proof -
  let ?first = "''filename read_id sequence_length_template''"
  let ?rows = "[''FAK1_0.fast5 r1 1000'', ''filename read_id sequence_length_template'',
                ''FAK1_1.fast5 r2'', ''FAK1_2.fast5 r3 abc'', ''FAK1_3.fast5 r4 500'']"
  let ?keep = "\<lambda>l. l = ''FAK1_0.fast5 r1 1000'' \<or> l = ''FAK1_3.fast5 r4 500''"
  let ?fs = "[''a.txt'' \<mapsto> ?first # ?rows]"
  have a: "?fs ''a.txt'' = Some (?first # ?rows)" by simp
  have b: "index (split (strip ?first)) ''sequence_length_template'' = Some 2"
    by code_simp
  have c1: "sublist ''filename'' ''filename read_id sequence_length_template''
            \<and> sublist ''read_id'' ''filename read_id sequence_length_template''"
    by code_simp
  have c2: "length (split (strip ''FAK1_1.fast5 r2'')) \<le> 2"
    by code_simp
  have c3: "py_int (split (strip ''FAK1_2.fast5 r3 abc'') ! 2) = None"
    by code_simp
  have c: "\<forall>l\<in>set ?rows. \<not> ?keep l \<longrightarrow>
             (sublist ''filename'' l \<and> sublist ''read_id'' l)
             \<or> length (split (strip l)) \<le> 2
             \<or> py_int (split (strip l) ! 2) = None"
    using c1 c2 c3 by simp
  show ?thesis
    using dropped_rows_removed [of ?fs "''a.txt''" ?first ?rows 2 ?keep 3000000000 "[]", OF a b c]
    by simp
qed

section \<open>Identifiers\<close>

lemma finite_file_ids: "finite (file_ids fs f)"
  by (simp add: file_ids_def Let_def split: option.splits prod.splits)

lemma finite_batch_ids: "finite (\<Union>f\<in>set files. file_ids fs f)"
  by (simp add: finite_file_ids)

lemma summary_flowcell_id:
  "summary w a b ls t s = Inr (Some r) \<Longrightarrow> flowcell_id r = b"
  by (auto simp add: summary_def Let_def split: if_splits)

lemma summary_flowcell_id_map:
  "map_sum id (map_option flowcell_id) (summary w a b ls t s)
     = map_sum id (map_option (\<lambda>r. b)) (summary w a' b' ls t s)"
  by (simp add: summary_def Let_def)

text \<open>
  Claim C6. The identifier field of an aggregated row is the comma-joined list, sorted
  and without repetition, of the union of the identifiers of the files; it is the same
  for every order of the files. In the example two files share the identifier
  \<open>FAS\<close> and have one of their own each.
\<close>

theorem identifiers_union_sorted:
  assumes "process_aggregated_files fs files s = Inr (Some r)"
  shows "(\<exists>ids. flowcell_id r = join '','' ids \<and> sorted ids \<and> distinct ids
                \<and> set ids = (\<Union>f\<in>set files. file_ids fs f))
       \<and> (mset files' = mset files \<longrightarrow>
            map_sum id (map_option flowcell_id) (process_aggregated_files fs files' s)
              = Inr (Some (flowcell_id r)))"
proof -
  let ?S = "\<Union>f\<in>set files. file_ids fs f"
  have f: "flowcell_id r = join '','' (sorted_list_of_set ?S)"
    using assms summary_flowcell_id by (simp add: process_aggregated_files_eq)
  have a: "\<exists>ids. flowcell_id r = join '','' ids \<and> sorted ids \<and> distinct ids \<and> set ids = ?S"
    using f finite_batch_ids [of fs files]
    by (intro exI [of _ "sorted_list_of_set ?S"]) simp
  have b: "map_sum id (map_option flowcell_id) (process_aggregated_files fs files' s)
              = Inr (Some (flowcell_id r))" if m: "mset files' = mset files"
  proof -
    have "set files' = set files" using m by (rule mset_eq_setD)
    then have i: "(\<Union>f\<in>set files'. file_ids fs f) = ?S" by simp
    have l: "mset (concat (map (file_lengths fs) files'))
               = mset (concat (map (file_lengths fs) files))"
      using m by (simp add: mset_concat_map)
    then have "sum_mset (mset (concat (map (file_lengths fs) files')))
                = sum_mset (mset (concat (map (file_lengths fs) files)))" by simp
    then have t: "sum_list (concat (map (file_lengths fs) files'))
                    = sum_list (concat (map (file_lengths fs) files))"
      by (simp add: sum_mset_sum_list)
    have "map_sum id (map_option flowcell_id) (process_aggregated_files fs files' s)
            = map_sum id (map_option (\<lambda>r. join '','' (sorted_list_of_set ?S)))
                (process_aggregated_files fs files s)"
      unfolding process_aggregated_files_eq i t summary_mset_cong [OF l]
      by (rule summary_flowcell_id_map)
    then show ?thesis using assms f by simp
  qed
  show ?thesis using a b by blast
qed

theorem identifiers_union_sorted_witness:
  "map_sum id (map_option flowcell_id)
     (process_aggregated_files
        [''a.txt'' \<mapsto> [''filename read_id sequence_length_template'',
                         ''FAS_0.fast5 r1 1000'', ''FAZ_1.fast5 r2 500''],
         ''b.txt'' \<mapsto> [''filename read_id sequence_length_template'',
                         ''FAS_2.fast5 r3 300'', ''FAB_3.fast5 r4 200'']]
        [''b.txt'', ''a.txt''] 3000000000) = Inr (Some ''FAB,FAS,FAZ'')
   \<and> (\<exists>ids. ''FAB,FAS,FAZ'' = join '','' ids \<and> sorted ids \<and> distinct ids
             \<and> set ids = {''FAS'', ''FAZ'', ''FAB''} \<and> length ids = 3)"
proof -
  let ?fs = "[''a.txt'' \<mapsto> [''filename read_id sequence_length_template'',
                         ''FAS_0.fast5 r1 1000'', ''FAZ_1.fast5 r2 500''],
         ''b.txt'' \<mapsto> [''filename read_id sequence_length_template'',
                         ''FAS_2.fast5 r3 300'', ''FAB_3.fast5 r4 200'']]"
  let ?r = "\<lparr>File = ''a.txt,b.txt'', flowcell_id = ''FAB,FAS,FAZ'', read_N50 = 1000,
             Gb = (2000, 1000000000), coverage = (2000, 3000000000),
             kb20 = (0, 3000000000), kb40 = (0, 3000000000), kb60 = (0, 3000000000),
             kb80 = (0, 3000000000), kb100 = (0, 3000000000), whales = 0\<rparr>"
  have p: "process_aggregated_files ?fs [''a.txt'', ''b.txt''] 3000000000 = Inr (Some ?r)"
    by code_simp
  have i: "(\<Union>f\<in>set [''a.txt'', ''b.txt'']. file_ids ?fs f) = {''FAS'', ''FAZ'', ''FAB''}"
    by code_simp
  have m: "mset [''b.txt'', ''a.txt''] = mset [''a.txt'', ''b.txt'']"
    by simp
  have d: "distinct ids \<Longrightarrow> set ids = {''FAS'', ''FAZ'', ''FAB''} \<Longrightarrow> length ids = 3" for ids
    using distinct_card [of ids] by simp
  show ?thesis
    using identifiers_union_sorted [OF p, of "[''b.txt'', ''a.txt'']"] i m d
    by auto
qed

lemma map_filter_Nil_candidates:
  "filter (candidate i) rows = [] \<Longrightarrow> List.map_filter (accepted i) rows = []"
  by (induction rows) (auto simp add: List.map_filter_simps accepted_def split: if_splits)

text \<open>
  Claim C7, as amended. The identifier field of a per-file row is the identifier taken
  from the first row of the file that is not a header line and has a field at the length
  column; it is empty when none can be taken from that row. Later rows do not change it.
\<close>

theorem single_file_identifier:
  assumes "process_single_file fs f s = Inr (Some r)"
      and "fs f = Some (first # rows)"
      and "index (split (strip first)) ''sequence_length_template'' = Some i"
  shows "\<exists>l rest. filter (candidate i) rows = l # rest
                 \<and> flowcell_id r = extract_flowcell_id (split (strip first)) (split (strip l))"
proof -
  let ?b = "case filter (candidate i) rows of [] \<Rightarrow> [] | l # _ \<Rightarrow> row_id (split (strip first)) l"
  have s: "summary 1000000 f ?b (file_lengths fs f) (sum_list (file_lengths fs f)) s = Inr (Some r)"
    using assms by (simp add: process_single_file_eq readline_def cong: list.case_cong)
  then have "file_lengths fs f \<noteq> []" by (rule summary_some_lengths)
  then have "List.map_filter (accepted i) rows \<noteq> []"
    using assms(2,3) by (simp add: file_lengths_def readline_def)
  then have "filter (candidate i) rows \<noteq> []"
    using map_filter_Nil_candidates by blast
  then obtain l rest where c: "filter (candidate i) rows = l # rest"
    by (cases "filter (candidate i) rows") simp_all
  have "flowcell_id r = ?b" using s by (rule summary_flowcell_id)
  then show ?thesis using c by (simp add: row_id_def)
qed

theorem single_file_identifier_witness:
  "candidate 2 ''FAK1_0.fast5 r1 1000''
   \<and> map_sum id (map_option flowcell_id)
     (process_single_file
        [''a.txt'' \<mapsto> [''filename read_id sequence_length_template'',
                         ''FAK1_0.fast5 r1 1000'', ''FAK2_1.fast5 r2 500'']]
        ''a.txt'' 3000000000)
     = Inr (Some (extract_flowcell_id (split (strip ''filename read_id sequence_length_template''))
                    (split (strip ''FAK1_0.fast5 r1 1000''))))"
proof -
  let ?first = "''filename read_id sequence_length_template''"
  let ?rows = "[''FAK1_0.fast5 r1 1000'', ''FAK2_1.fast5 r2 500'']"
  let ?fs = "[''a.txt'' \<mapsto> ?first # ?rows]"
  let ?r = "\<lparr>File = ''a.txt'', flowcell_id = ''FAK1'', read_N50 = 1000,
             Gb = (1500, 1000000000), coverage = (1500, 3000000000),
             kb20 = (0, 3000000000), kb40 = (0, 3000000000), kb60 = (0, 3000000000),
             kb80 = (0, 3000000000), kb100 = (0, 3000000000), whales = 0\<rparr>"
  have p: "process_single_file ?fs ''a.txt'' 3000000000 = Inr (Some ?r)"
    by code_simp
  have a: "?fs ''a.txt'' = Some (?first # ?rows)" by simp
  have b: "index (split (strip ?first)) ''sequence_length_template'' = Some 2"
    by code_simp
  have c: "filter (candidate 2) ?rows = ?rows"
    by code_simp
  have d: "candidate 2 ''FAK1_0.fast5 r1 1000''"
    by code_simp
  show ?thesis
    using single_file_identifier [OF p a b] p c d by auto
qed

text \<open>
  Claim C7 as stated fails on a file whose two rows carry the identifiers \<open>FAK1\<close> and
  \<open>FAK2\<close>: the per-file row holds \<open>FAK1\<close> alone, where the aggregated row of the
  same file holds both.
\<close>

theorem single_file_first_identifier_only:
  "map_sum id (map_option flowcell_id)
     (process_single_file
        [''a.txt'' \<mapsto> [''filename read_id sequence_length_template'',
                         ''FAK1_0.fast5 r1 1000'', ''FAK2_1.fast5 r2 500'']]
        ''a.txt'' 3000000000) = Inr (Some ''FAK1'')
   \<and> extract_flowcell_id (split (strip ''filename read_id sequence_length_template''))
        (split (strip ''FAK2_1.fast5 r2 500'')) = ''FAK2''
   \<and> accepted 2 ''FAK2_1.fast5 r2 500'' = Some 500
   \<and> map_sum id (map_option flowcell_id)
     (process_aggregated_files
        [''a.txt'' \<mapsto> [''filename read_id sequence_length_template'',
                         ''FAK1_0.fast5 r1 1000'', ''FAK2_1.fast5 r2 500'']]
        [''a.txt''] 3000000000) = Inr (Some ''FAK1,FAK2'')"
  by code_simp

section \<open>Buckets\<close>

lemma bases_at_least_mono:
  assumes "0 \<le> c" and "c \<le> c'"
  shows "bases_at_least c' ls \<le> bases_at_least c ls"
  using assms unfolding bases_at_least_def
  by (induction ls) auto

lemma reads_at_least_mono:
  assumes "c \<le> c'"
  shows "reads_at_least c' ls \<le> reads_at_least c ls"
  using assms unfolding reads_at_least_def
  by (induction ls) auto

lemma reads_at_quality_mono:
  assumes "c \<le> c'"
  shows "reads_at_quality c' df \<le> reads_at_quality c df"
proof -
  have "length (filter (\<lambda>r. fst r \<ge> c') rs) \<le> length (filter (\<lambda>r. fst r \<ge> c) rs)"
    for rs :: "(rat \<times> int) list"
    using assms by (induction rs) auto
  then show ?thesis by (simp add: reads_at_quality_def)
qed

lemma reads_at_quality_le: "reads_at_quality c df \<le> length (records df)"
  by (simp add: reads_at_quality_def)

lemma summary_buckets:
  assumes "summary w a b ls t s = Inr (Some r)"
  shows "kb20 r = (bases_at_least 20000 (rev (sort ls)), s)"
    and "kb40 r = (bases_at_least 40000 (rev (sort ls)), s)"
    and "kb60 r = (bases_at_least 60000 (rev (sort ls)), s)"
    and "kb80 r = (bases_at_least 80000 (rev (sort ls)), s)"
    and "kb100 r = (bases_at_least 100000 (rev (sort ls)), s)"
    and "whales r = reads_at_least w (rev (sort ls))"
  using assms by (auto simp add: summary_def Let_def split: if_splits)

lemma summary_bucket_chain:
  assumes "summary w a b ls t s = Inr (Some r)"
  shows "fst (kb100 r) \<le> fst (kb80 r) \<and> fst (kb80 r) \<le> fst (kb60 r)
       \<and> fst (kb60 r) \<le> fst (kb40 r) \<and> fst (kb40 r) \<le> fst (kb20 r)
       \<and> snd (kb100 r) = snd (kb20 r) \<and> snd (kb80 r) = snd (kb20 r)
       \<and> snd (kb60 r) = snd (kb20 r) \<and> snd (kb40 r) = snd (kb20 r)"
  using summary_buckets [OF assms]
    bases_at_least_mono [of 80000 100000 "rev (sort ls)"]
    bases_at_least_mono [of 60000 80000 "rev (sort ls)"]
    bases_at_least_mono [of 40000 60000 "rev (sort ls)"]
    bases_at_least_mono [of 20000 40000 "rev (sort ls)"]
  by simp

lemma process_rna_file_counts:
  assumes "process_rna_file rfs g = Inr (Some q)"
  shows "\<exists>df. total_reads_M q = (int (length (records df)), 1000000)
            \<and> q5_reads_M q = (int (reads_at_quality 5 df), 1000000)
            \<and> q10_reads_M q = (int (reads_at_quality 10 df), 1000000)
            \<and> q15_reads_M q = (int (reads_at_quality 15 df), 1000000)
            \<and> q20_reads_M q = (int (reads_at_quality 20 df), 1000000)
            \<and> q25_reads_M q = (int (reads_at_quality 25 df), 1000000)"
  using assms
  by (auto simp add: process_rna_file_def Let_def split: option.splits csv.splits if_splits)

lemma process_rna_file_chain:
  assumes "process_rna_file rfs g = Inr (Some q)"
  shows "fst (q25_reads_M q) \<le> fst (q20_reads_M q) \<and> fst (q20_reads_M q) \<le> fst (q15_reads_M q)
       \<and> fst (q15_reads_M q) \<le> fst (q10_reads_M q) \<and> fst (q10_reads_M q) \<le> fst (q5_reads_M q)
       \<and> fst (q5_reads_M q) \<le> fst (total_reads_M q)"
proof -
  obtain df where d: "total_reads_M q = (int (length (records df)), 1000000)"
            "q5_reads_M q = (int (reads_at_quality 5 df), 1000000)"
            "q10_reads_M q = (int (reads_at_quality 10 df), 1000000)"
            "q15_reads_M q = (int (reads_at_quality 15 df), 1000000)"
            "q20_reads_M q = (int (reads_at_quality 20 df), 1000000)"
            "q25_reads_M q = (int (reads_at_quality 25 df), 1000000)"
    using process_rna_file_counts [OF assms] by blast
  show ?thesis
    using d reads_at_quality_mono [of 20 25 df] reads_at_quality_mono [of 15 20 df]
      reads_at_quality_mono [of 10 15 df] reads_at_quality_mono [of 5 10 df]
      reads_at_quality_le [of 5 df]
    by simp
qed

lemma rna_loop_chain:
  assumes "rna_loop fs files t = Inr t'"
      and "count_q25 t \<le> count_q20 t \<and> count_q20 t \<le> count_q15 t \<and> count_q15 t \<le> count_q10 t
           \<and> count_q10 t \<le> count_q5 t \<and> count_q5 t \<le> total_reads t"
  shows "count_q25 t' \<le> count_q20 t' \<and> count_q20 t' \<le> count_q15 t' \<and> count_q15 t' \<le> count_q10 t'
           \<and> count_q10 t' \<le> count_q5 t' \<and> count_q5 t' \<le> total_reads t'"
  using assms
proof (induction files arbitrary: t)
  case Nil
  then show ?case by simp
next
  case (Cons f files)
  show ?case
  proof (cases "fs f")
    case None
    then show ?thesis using Cons by simp
  next
    case (Some c)
    show ?thesis
    proof (cases c)
      case Unreadable
      then show ?thesis using Cons Some by simp
    next
      case (Frame df0)
      let ?df = "drop_columns df0"
      let ?t = "t\<lparr>count_q5 := count_q5 t + reads_at_quality 5 ?df,
                    count_q10 := count_q10 t + reads_at_quality 10 ?df,
                    count_q15 := count_q15 t + reads_at_quality 15 ?df,
                    count_q20 := count_q20 t + reads_at_quality 20 ?df,
                    count_q25 := count_q25 t + reads_at_quality 25 ?df,
                    total_bases := wrap64 (total_bases t
                                             + wrap64 (sum_list (map snd (records ?df)))),
                    total_reads := total_reads t + length (records ?df),
                    rna_read_lengths := rna_read_lengths t @ map snd (records ?df)\<rparr>"
      have r: "rna_loop fs files ?t = Inr t'"
        using Cons.prems(1) Some Frame by (simp add: Let_def split: if_splits)
      show ?thesis
      proof (rule Cons.IH [OF r])
        show "count_q25 ?t \<le> count_q20 ?t \<and> count_q20 ?t \<le> count_q15 ?t
              \<and> count_q15 ?t \<le> count_q10 ?t \<and> count_q10 ?t \<le> count_q5 ?t
              \<and> count_q5 ?t \<le> total_reads ?t"
          using Cons.prems(2) reads_at_quality_mono [of 20 25 ?df]
            reads_at_quality_mono [of 15 20 ?df] reads_at_quality_mono [of 10 15 ?df]
            reads_at_quality_mono [of 5 10 ?df] reads_at_quality_le [of 5 ?df]
          by simp
      qed
    qed
  qed
qed

lemma process_aggregated_rna_files_chain:
  assumes "process_aggregated_rna_files rfs files = Inr (Some q)"
  shows "fst (q25_reads_M q) \<le> fst (q20_reads_M q) \<and> fst (q20_reads_M q) \<le> fst (q15_reads_M q)
       \<and> fst (q15_reads_M q) \<le> fst (q10_reads_M q) \<and> fst (q10_reads_M q) \<le> fst (q5_reads_M q)
       \<and> fst (q5_reads_M q) \<le> fst (total_reads_M q)"
proof -
  let ?t0 = "\<lparr>total_reads = 0, total_bases = 0, count_q5 = 0, count_q10 = 0, count_q15 = 0,
              count_q20 = 0, count_q25 = 0, rna_read_lengths = []\<rparr>"
  obtain t where l: "rna_loop rfs files ?t0 = Inr t"
    using assms by (cases "rna_loop rfs files ?t0") (simp_all add: process_aggregated_rna_files_def)
  have c: "count_q25 t \<le> count_q20 t \<and> count_q20 t \<le> count_q15 t \<and> count_q15 t \<le> count_q10 t
           \<and> count_q10 t \<le> count_q5 t \<and> count_q5 t \<le> total_reads t"
    by (rule rna_loop_chain [OF l]) simp
  show ?thesis
    using assms l c by (auto simp add: process_aggregated_rna_files_def Let_def split: if_splits)
qed

text \<open>
  Claim C8. A bucket at a higher cutoff never holds more than the bucket at a lower
  one: the base sums of the length-bucket script (whose cutoffs are positive), its read
  counts, and the read counts of the quality-bucket script. In every row returned, the
  buckets are in descending order of value as the cutoff grows, and the base sums of a
  row share their divisor.
\<close>

theorem buckets_monotone:
  "(0 \<le> c \<and> c \<le> c' \<longrightarrow> bases_at_least c' ls \<le> bases_at_least c ls)
   \<and> (c \<le> c' \<longrightarrow> reads_at_least c' ls \<le> reads_at_least c ls)
   \<and> (k \<le> k' \<longrightarrow> reads_at_quality k' df \<le> reads_at_quality k df)
   \<and> (process_single_file fs f s = Inr (Some r)
        \<or> process_aggregated_files fs files s = Inr (Some r) \<longrightarrow>
        fst (kb100 r) \<le> fst (kb80 r) \<and> fst (kb80 r) \<le> fst (kb60 r)
        \<and> fst (kb60 r) \<le> fst (kb40 r) \<and> fst (kb40 r) \<le> fst (kb20 r)
        \<and> snd (kb100 r) = snd (kb20 r) \<and> snd (kb80 r) = snd (kb20 r)
        \<and> snd (kb60 r) = snd (kb20 r) \<and> snd (kb40 r) = snd (kb20 r))
   \<and> (process_rna_file rfs g = Inr (Some q)
        \<or> process_aggregated_rna_files rfs gs = Inr (Some q) \<longrightarrow>
        fst (q25_reads_M q) \<le> fst (q20_reads_M q) \<and> fst (q20_reads_M q) \<le> fst (q15_reads_M q)
        \<and> fst (q15_reads_M q) \<le> fst (q10_reads_M q) \<and> fst (q10_reads_M q) \<le> fst (q5_reads_M q)
        \<and> fst (q5_reads_M q) \<le> fst (total_reads_M q))"
proof -
  have a: "fst (kb100 r) \<le> fst (kb80 r) \<and> fst (kb80 r) \<le> fst (kb60 r)
        \<and> fst (kb60 r) \<le> fst (kb40 r) \<and> fst (kb40 r) \<le> fst (kb20 r)
        \<and> snd (kb100 r) = snd (kb20 r) \<and> snd (kb80 r) = snd (kb20 r)
        \<and> snd (kb60 r) = snd (kb20 r) \<and> snd (kb40 r) = snd (kb20 r)"
    if h: "process_single_file fs f s = Inr (Some r)
           \<or> process_aggregated_files fs files s = Inr (Some r)"
  proof -
    obtain w x y ls t where "summary w x y ls t s = Inr (Some r)"
      using h process_single_file_summary [of fs f s r]
      by (auto simp add: process_aggregated_files_eq)
    then show ?thesis by (rule summary_bucket_chain)
  qed
  have b: "fst (q25_reads_M q) \<le> fst (q20_reads_M q) \<and> fst (q20_reads_M q) \<le> fst (q15_reads_M q)
        \<and> fst (q15_reads_M q) \<le> fst (q10_reads_M q) \<and> fst (q10_reads_M q) \<le> fst (q5_reads_M q)
        \<and> fst (q5_reads_M q) \<le> fst (total_reads_M q)"
    if "process_rna_file rfs g = Inr (Some q)
        \<or> process_aggregated_rna_files rfs gs = Inr (Some q)"
    using that process_rna_file_chain process_aggregated_rna_files_chain by blast
  show ?thesis
    using a b bases_at_least_mono reads_at_least_mono reads_at_quality_mono by blast
qed

theorem buckets_monotone_witness:
  "bases_at_least 40000 [30000, 50000, -7] \<le> bases_at_least 20000 [30000, 50000, -7]
   \<and> reads_at_least 1000000 [30000, 50000, -7] \<le> reads_at_least 100000 [30000, 50000, -7]
   \<and> reads_at_quality 10 \<lparr>columns = [], records = [(7, 100), (12, 100)]\<rparr>
       \<le> reads_at_quality 5 \<lparr>columns = [], records = [(7, 100), (12, 100)]\<rparr>
   \<and> bases_at_least 40000 [30000, 50000, -7] = 50000
   \<and> bases_at_least 20000 [30000, 50000, -7] = 80000"
proof -
  have h: "(0::int) \<le> 20000 \<and> (20000::int) \<le> 40000" "(100000::int) \<le> 1000000"
          "(5::rat) \<le> 10"
    by simp_all
  have e: "bases_at_least 40000 [30000, 50000, -7] = 50000"
          "bases_at_least 20000 [30000, 50000, -7] = 80000"
    by (simp_all add: bases_at_least_def)
  show ?thesis
    using buckets_monotone [of 20000 40000 "[30000, 50000, -7]" 5 10
            "\<lparr>columns = [], records = [(7, 100), (12, 100)]\<rparr>"]
          buckets_monotone [of 100000 1000000 "[30000, 50000, -7]" 5 10
            "\<lparr>columns = [], records = [(7, 100), (12, 100)]\<rparr>"] h e
    by simp
qed

section \<open>The identifier of a row with a malformed length\<close>









end
